theory Spec2Isabelle
  imports Complex_Main "HOL-Library.Word"
begin

section \<open>JavaScript values\<close>

text \<open>
  The values that flow through the model and controller code.  An object is the ordered
  list of its own properties (insertion order, as \<open>for..in\<close>, \<open>_.each\<close> and
  \<open>JSON.stringify\<close> enumerate them); what a value has beyond them, such as the methods
  an object inherits, is read through the engine below.  Numbers are the integers from
  \<open>-2^53\<close> to \<open>2^53 - 1\<close>, which JavaScript stores and compares exactly and prints in
  plain decimal digits: a 54-bit word, read signed (\<open>sint\<close>).  The result of
  \<open>Number(..)\<close>, which can be any number, has a type of its own, \<open>jsnumber\<close>.
\<close>

datatype jsval =
    JUndefined
  | JNull
  | JBool bool
  | JNum "54 word"
  | JStr string
  | JObj "(string \<times> jsval) list"

text \<open>Truthiness, as \<open>!!v\<close>, \<open>v || d\<close> and \<open>if (v)\<close> decide it.\<close>

fun truthy :: "jsval \<Rightarrow> bool" where
  "truthy JUndefined = False"
| "truthy JNull = False"
| "truthy (JBool b) = b"
| "truthy (JNum n) = (n \<noteq> 0)"
| "truthy (JStr s) = (s \<noteq> [])"
| "truthy (JObj ps) = True"

text \<open>\<open>a || b\<close>\<close>

definition js_or :: "jsval \<Rightarrow> jsval \<Rightarrow> jsval" where
  "js_or a b = (if truthy a then a else b)"

text \<open>
  \<open>o.k\<close> for the property names the code writes out (\<open>data\<close>, \<open>url\<close>, \<open>type\<close>,
  \<open>jsonBody\<close>, \<open>timeout\<close>, \<open>fn\<close> and the like), which no value inherits: the own
  property, \<open>undefined\<close> when absent or when \<open>o\<close> is no object.
\<close>

fun get_prop :: "jsval \<Rightarrow> string \<Rightarrow> jsval" where
  "get_prop (JObj ps) k = (case map_of ps k of None \<Rightarrow> JUndefined | Some v \<Rightarrow> v)"
| "get_prop v k = JUndefined"

text \<open>
  A read \<open>v[k]\<close> whose key \<open>k\<close> is computed can find a member that is not among the own
  properties listed: a method the value inherits (\<open>constructor\<close>, \<open>toString\<close>, ..), the
  \<open>length\<close> of a string.  Such a member is a value, or a function or object of the engine
  (\<open>Foreign\<close>), which is truthy and of which the code uses nothing but its string.
\<close>

datatype member = Data jsval | Foreign string

fun truthy_member :: "member \<Rightarrow> bool" where
  "truthy_member (Data v) = truthy v"
| "truthy_member (Foreign t) = True"

text \<open>
  A number as \<open>Number(..)\<close> returns it: not a number, an infinity, or a finite number
  with its exact value (the sign of a zero is not kept).
\<close>

datatype jsnumber = NaN | PosInfinity | NegInfinity | Finite rat

text \<open>
  What the JavaScript engine and its standard library decide, as parameters of the model.
  \<open>member_of v k\<close> is the member \<open>v[k]\<close> when \<open>k\<close> is not an own property listed in
  \<open>v\<close>: what \<open>v\<close> inherits from its prototype, for a string also its length and
  characters, \<open>Data JUndefined\<close> if there is none.  \<open>string_number s\<close> is \<open>Number(s)\<close>
  for the strings whose value takes the engine's number parser: fractions, exponents,
  signs, hexadecimal, octal and binary literals, \<open>Infinity\<close>, digits beyond \<open>2^53\<close>,
  characters outside ASCII.
\<close>

record engine =
  member_of :: "jsval \<Rightarrow> string \<Rightarrow> member"
  string_number :: "string \<Rightarrow> jsnumber"

text \<open>\<open>v[k]\<close>, the key computed: the own property if \<open>v\<close> lists one, the engine's answer otherwise.\<close>

definition js_get :: "engine \<Rightarrow> jsval \<Rightarrow> string \<Rightarrow> member" where
  "js_get E v k =
     (case v of
        JObj ps \<Rightarrow> (case map_of ps k of None \<Rightarrow> member_of E v k | Some x \<Rightarrow> Data x)
      | other \<Rightarrow> member_of E v k)"

fun is_object :: "jsval \<Rightarrow> bool" where
  "is_object (JObj ps) = True"
| "is_object v = False"

text \<open>\<open>o[k] = v\<close> on the property list: overwrite in place, or append a new property.\<close>

fun assign :: "(string \<times> 'a) list \<Rightarrow> string \<Rightarrow> 'a \<Rightarrow> (string \<times> 'a) list" where
  "assign [] k v = [(k, v)]"
| "assign (p # ps) k v = (if fst p = k then (k, v) # ps else p # assign ps k v)"

fun set_prop :: "jsval \<Rightarrow> string \<Rightarrow> jsval \<Rightarrow> jsval" where
  "set_prop (JObj ps) k v = JObj (assign ps k v)"
| "set_prop w k v = w"

text \<open>\<open>delete o[k]\<close>; on a primitive it does nothing.\<close>

fun delete_prop :: "jsval \<Rightarrow> string \<Rightarrow> jsval" where
  "delete_prop (JObj ps) k = JObj (filter (\<lambda>p. fst p \<noteq> k) ps)"
| "delete_prop w k = w"

text \<open>
  \<open>_.defaults(obj, src)\<close>: every property of \<open>src\<close> that is \<open>undefined\<close> on \<open>obj\<close> is
  copied to \<open>obj\<close>.
\<close>

fun defaults_props :: "jsval \<Rightarrow> (string \<times> jsval) list \<Rightarrow> jsval" where
  "defaults_props obj [] = obj"
| "defaults_props obj (p # ps) =
     defaults_props (if get_prop obj (fst p) = JUndefined then set_prop obj (fst p) (snd p) else obj) ps"

fun defaults :: "jsval \<Rightarrow> jsval \<Rightarrow> jsval" where
  "defaults obj (JObj ps) = defaults_props obj ps"
| "defaults obj src = obj"

subsection \<open>Conversion to strings and numbers\<close>

definition digit_char :: "nat \<Rightarrow> char" where
  "digit_char d = ''0123456789'' ! (d mod 10)"

fun string_of_nat :: "nat \<Rightarrow> string" where
  "string_of_nat n = (if n < 10 then [digit_char n] else string_of_nat (n div 10) @ [digit_char n])"

declare string_of_nat.simps [simp del]

definition string_of_int :: "int \<Rightarrow> string" where
  "string_of_int i = (if i < 0 then CHR ''-'' # string_of_nat (nat (- i)) else string_of_nat (nat i))"

text \<open>
  \<open>String(v)\<close>, also the conversion \<open>String.prototype.replace\<close> applies to what its
  callback returns.  An object prints through the \<open>toString\<close> it inherits.
\<close>

fun to_string :: "jsval \<Rightarrow> string" where
  "to_string JUndefined = ''undefined''"
| "to_string JNull = ''null''"
| "to_string (JBool b) = (if b then ''true'' else ''false'')"
| "to_string (JNum n) = string_of_int (sint n)"
| "to_string (JStr s) = s"
| "to_string (JObj ps) = ''[object Object]''"

fun member_text :: "member \<Rightarrow> string" where
  "member_text (Data v) = to_string v"
| "member_text (Foreign t) = t"

definition is_space :: "char \<Rightarrow> bool" where
  "is_space c = (c \<in> set [CHR '' '', CHR 0x09, CHR 0x0A, CHR 0x0B, CHR 0x0C, CHR 0x0D])"

definition is_digit :: "char \<Rightarrow> bool" where
  "is_digit c = (c \<in> set ''0123456789'')"

definition trim_end :: "string \<Rightarrow> string" where
  "trim_end s = rev (dropWhile is_space (rev s))"

text \<open>\<open>s.trim()\<close>\<close>

definition trim :: "string \<Rightarrow> string" where
  "trim s = trim_end (dropWhile is_space s)"

definition digit_val :: "char \<Rightarrow> nat" where
  "digit_val c = of_char c - 48"

definition nat_of_digits :: "string \<Rightarrow> nat" where
  "nat_of_digits ds = foldl (\<lambda>n c. 10 * n + digit_val c) 0 ds"

text \<open>
  \<open>Number(s)\<close> on a string.  The white space around is dropped; the blank string is 0; a
  string that does not start as a numeric literal does (a digit, a sign, a point or the
  \<open>I\<close> of \<open>Infinity\<close>) is not a number; a string of decimal digits up to \<open>2^53\<close> is that
  integer.  Every other string is the engine's to read.
\<close>

definition is_ascii :: "string \<Rightarrow> bool" where
  "is_ascii s = list_all (\<lambda>c. (of_char c :: nat) < 128) s"

definition StringToNumber :: "engine \<Rightarrow> string \<Rightarrow> jsnumber" where
  "StringToNumber E s =
     (if \<not> is_ascii s then string_number E s
      else if trim s = [] then Finite 0
      else if hd (trim s) \<notin> set ''0123456789+-.I'' then NaN
      else if list_all is_digit (trim s) \<and> nat_of_digits (trim s) \<le> 2 ^ 53
        then Finite (of_nat (nat_of_digits (trim s)))
      else string_number E s)"

text \<open>\<open>Number(v)\<close>\<close>

fun Number :: "engine \<Rightarrow> jsval \<Rightarrow> jsnumber" where
  "Number E JUndefined = NaN"
| "Number E JNull = Finite 0"
| "Number E (JBool b) = Finite (if b then 1 else 0)"
| "Number E (JNum n) = Finite (of_int (sint n))"
| "Number E (JStr s) = StringToNumber E s"
| "Number E (JObj ps) = NaN"

text \<open>
  A stand-in engine for the worked examples.  They read members of plain objects only, for
  which it answers as V8 does (the functions of \<open>Object.prototype\<close>, with the text V8
  prints for them), and they convert no string that takes the engine's number parser.
\<close>

definition example_engine :: engine where
  "example_engine =
     \<lparr>member_of = (\<lambda>v k.
        case v of
          JObj ps \<Rightarrow>
            if k = ''constructor'' then Foreign ''function Object() { [native code] }''
            else if k \<in> set [''toString'', ''toLocaleString'', ''valueOf'', ''hasOwnProperty'',
                              ''isPrototypeOf'', ''propertyIsEnumerable'', ''__defineGetter__'',
                              ''__defineSetter__'', ''__lookupGetter__'', ''__lookupSetter__'']
              then Foreign (''function '' @ k @ ''() { [native code] }'')
            else if k = ''__proto__'' then Foreign ''[object Object]''
            else Data JUndefined
        | other \<Rightarrow> Data JUndefined),
      string_number = (\<lambda>s. NaN)\<rparr>"

subsection \<open>Strings\<close>

definition is_upper :: "char \<Rightarrow> bool" where
  "is_upper c = (c \<in> set ''ABCDEFGHIJKLMNOPQRSTUVWXYZ'')"

definition is_lower :: "char \<Rightarrow> bool" where
  "is_lower c = (c \<in> set ''abcdefghijklmnopqrstuvwxyz'')"

text \<open>\<open>\w\<close> of a regular expression.\<close>

definition is_word :: "char \<Rightarrow> bool" where
  "is_word c = (is_upper c \<or> is_lower c \<or> is_digit c \<or> c = CHR ''_'')"

definition lower_char :: "char \<Rightarrow> char" where
  "lower_char c =
     (case map_of (zip ''ABCDEFGHIJKLMNOPQRSTUVWXYZ'' ''abcdefghijklmnopqrstuvwxyz'') c of
        Some l \<Rightarrow> l | None \<Rightarrow> c)"

definition upper_char :: "char \<Rightarrow> char" where
  "upper_char c =
     (case map_of (zip ''abcdefghijklmnopqrstuvwxyz'' ''ABCDEFGHIJKLMNOPQRSTUVWXYZ'') c of
        Some u \<Rightarrow> u | None \<Rightarrow> c)"

text \<open>\<open>s.toLowerCase()\<close>\<close>

definition toLowerCase :: "string \<Rightarrow> string" where
  "toLowerCase s = map lower_char s"

text \<open>
  \<open>s.split(/\s+/)\<close>: the pieces between the runs of white space; a string that starts
  (ends) with white space has an empty first (last) piece, and the empty string has one
  piece, itself.  \<open>cur\<close> is the piece being read, reversed; \<open>insp\<close> says that the last
  character read was white space.
\<close>

fun split_go :: "string \<Rightarrow> string \<Rightarrow> bool \<Rightarrow> string list" where
  "split_go [] cur insp = [rev cur]"
| "split_go (c # cs) cur insp =
     (if is_space c then (if insp then split_go cs cur True else rev cur # split_go cs [] True)
      else split_go cs (c # cur) False)"

definition split_ws :: "string \<Rightarrow> string list" where
  "split_ws s = split_go s [] False"

text \<open>\<open>s.split('.')\<close>\<close>

fun split_dot_go :: "string \<Rightarrow> string \<Rightarrow> string list" where
  "split_dot_go [] cur = [rev cur]"
| "split_dot_go (c # cs) cur =
     (if c = CHR ''.'' then rev cur # split_dot_go cs [] else split_dot_go cs (c # cur))"

definition split_dot :: "string \<Rightarrow> string list" where
  "split_dot s = split_dot_go s []"

text \<open>\<open>xs.join(sep)\<close>\<close>

fun join :: "string \<Rightarrow> string list \<Rightarrow> string" where
  "join sep [] = []"
| "join sep [x] = x"
| "join sep (x # y # ys) = x @ sep @ join sep (y # ys)"

text \<open>\<open>args[i]\<close> of an \<open>arguments\<close> object: \<open>undefined\<close> beyond its length.\<close>

definition arg_at :: "jsval list \<Rightarrow> nat \<Rightarrow> jsval" where
  "arg_at args i = (if i < length args then args ! i else JUndefined)"

subsection \<open>\<open>JSON.stringify\<close>\<close>

definition hex_char :: "nat \<Rightarrow> char" where
  "hex_char d = ''0123456789abcdef'' ! (d mod 16)"

definition json_escape :: "char \<Rightarrow> string" where
  "json_escape c =
     (if c = CHR 0x22 then [CHR 0x5C, CHR 0x22]
      else if c = CHR 0x5C then [CHR 0x5C, CHR 0x5C]
      else if c = CHR 0x08 then [CHR 0x5C, CHR ''b'']
      else if c = CHR 0x0C then [CHR 0x5C, CHR ''f'']
      else if c = CHR 0x0A then [CHR 0x5C, CHR ''n'']
      else if c = CHR 0x0D then [CHR 0x5C, CHR ''r'']
      else if c = CHR 0x09 then [CHR 0x5C, CHR ''t'']
      else if (of_char c :: nat) < 32
        then [CHR 0x5C, CHR ''u'', CHR ''0'', CHR ''0'', hex_char (of_char c div 16), hex_char (of_char c)]
      else [c])"

definition json_quote :: "string \<Rightarrow> string" where
  "json_quote s = CHR 0x22 # concat (map json_escape s) @ [CHR 0x22]"

text \<open>
  The text of a value, \<open>None\<close> where \<open>JSON.stringify\<close> yields \<open>undefined\<close>; a property
  whose value has no text is left out of its object.
\<close>

fun json :: "jsval \<Rightarrow> string option"
  and json_props :: "(string \<times> jsval) list \<Rightarrow> string list" where
  "json JUndefined = None"
| "json JNull = Some ''null''"
| "json (JBool b) = Some (if b then ''true'' else ''false'')"
| "json (JNum n) = Some (string_of_int (sint n))"
| "json (JStr s) = Some (json_quote s)"
| "json (JObj ps) = Some (CHR ''{'' # join '','' (json_props ps) @ ''}'')"
| "json_props [] = []"
| "json_props (p # ps) =
     (case json (snd p) of
        None \<Rightarrow> json_props ps
      | Some t \<Rightarrow> (json_quote (fst p) @ CHR '':'' # t) # json_props ps)"

definition JSON_stringify :: "jsval \<Rightarrow> jsval" where
  "JSON_stringify v = (case json v of None \<Rightarrow> JUndefined | Some t \<Rightarrow> JStr t)"

section \<open>Controller teardown (base controller)\<close>

text \<open>
  The controller state \<open>unload\<close> and \<open>destroy\<close> read and write: the \<open>_unloaded\<close> flag,
  the \<open>_unbind\<close> array of teardown callbacks and the owned view.  Callbacks, event
  listeners and the view are collaborators; what the controller does to them is recorded,
  in order, in \<open>trace\<close>.  \<open>unloaded\<close> is the test \<open>this._unloaded === true\<close>, and
  \<open>ctl_view\<close> is what \<open>getView()\<close> returns, \<open>None\<close> for \<open>null\<close>.  A function returns the
  error it throws, if any, next to the state it leaves behind.
\<close>

datatype ('f, 'v) ctl_call =
    Teardown 'f
  | Trigger string
  | ViewUnload 'v jsval
  | ViewDestroy 'v
  | SuperDestroy

datatype js_error = TypeError string | Error string

record ('f, 'v) controller =
  unloaded :: bool
  unbind :: "'f list"
  ctl_view :: "'v option"
  trace :: "('f, 'v) ctl_call list"

text \<open>\<open>while (unbind.length > 0) { unbind.pop().call(this); }\<close>\<close>

function unbind_loop :: "('f, 'v) controller \<Rightarrow> ('f, 'v) controller" where
  "unbind_loop c =
     (if length (unbind c) > 0
      then unbind_loop (c\<lparr>unbind := butlast (unbind c), trace := trace c @ [Teardown (last (unbind c))]\<rparr>)
      else c)"
  by pat_completeness auto
termination
  by (relation "measure (\<lambda>c. length (unbind c))") auto

declare unbind_loop.simps [simp del]

definition unload :: "jsval \<Rightarrow> ('f, 'v) controller \<Rightarrow> js_error option \<times> ('f, 'v) controller" where
  "unload cb c =
     (if \<not> unloaded c then
        (let c1 = unbind_loop c;
             c2 = c1\<lparr>unloaded := True\<rparr>;
             c3 = c2\<lparr>trace := trace c2 @ [Trigger ''unload'']\<rparr>
         in case ctl_view c3 of
              None \<Rightarrow> (Some (TypeError ''getView() is null''), c3)
            | Some v \<Rightarrow> (None, c3\<lparr>trace := trace c3 @ [ViewUnload v cb]\<rparr>))
      else (None, c))"

definition destroyView :: "('f, 'v) controller \<Rightarrow> ('f, 'v) controller" where
  "destroyView c =
     (case ctl_view c of
        Some v \<Rightarrow> c\<lparr>trace := trace c @ [ViewDestroy v], ctl_view := None\<rparr>
      | None \<Rightarrow> c\<lparr>ctl_view := None\<rparr>)"

definition destroy :: "('f, 'v) controller \<Rightarrow> js_error option \<times> ('f, 'v) controller" where
  "destroy c =
     (let r = (if \<not> unloaded c then unload JUndefined c else (None, c))
      in case fst r of
           Some e \<Rightarrow> r
         | None \<Rightarrow> (let c1 = destroyView (snd r) in (None, c1\<lparr>trace := trace c1 @ [SuperDestroy]\<rparr>)))"

section \<open>Model: parser registry\<close>

text \<open>
  A compiled parser entry \<open>{uri, callback, type}\<close>.  \<open>p_uri\<close> is the \<open>test\<close> of the
  compiled regular expression, \<open>p_type\<close> the lower-cased verb or \<open>null\<close> (\<open>None\<close>).
  A callback declared by name is the wrapper that calls the static method of that name.
\<close>

datatype 'cb parser_fn = Named string | Fn 'cb

record 'cb parser =
  p_uri :: "string \<Rightarrow> bool"
  p_callback :: "'cb parser_fn"
  p_type :: "string option"

text \<open>
  The loop of \<open>getParser\<close> over \<open>this._parsers\<close>, from the first entry on; \<open>None\<close> is
  the \<open>undefined\<close> the function returns when it falls off the loop.
\<close>

fun getParser_loop :: "'cb parser list \<Rightarrow> string \<Rightarrow> string \<Rightarrow> 'cb parser_fn option" where
  "getParser_loop [] uri_arg type_arg = None"
| "getParser_loop (p # ps) uri_arg type_arg =
     (if (case p_type p of None \<Rightarrow> False | Some t \<Rightarrow> t \<noteq> [] \<and> t \<noteq> type_arg)
      then getParser_loop ps uri_arg type_arg
      else if p_uri p uri_arg then Some (p_callback p)
      else getParser_loop ps uri_arg type_arg)"

definition getParser :: "'cb parser list \<Rightarrow> string \<Rightarrow> jsval \<Rightarrow> 'cb parser_fn option" where
  "getParser ps uri_arg type_arg = getParser_loop ps uri_arg (toLowerCase (to_string type_arg))"





section \<open>Model: the request engine\<close>

type_synonym handler = "jsval \<Rightarrow> jsval \<Rightarrow> jsval"

text \<open>
  The static side of a model class, as far as \<open>request\<close> reads it.  \<open>isValidResponse\<close>
  gives the truth value of what the method returns; \<open>statics\<close> looks up a static method
  by name, for the parsers declared by name.
\<close>

record model_class =
  timeout :: jsval
  parsers :: "handler parser list"
  rootUrl :: jsval
  rootURI :: jsval
  defaultHandler :: handler
  isValidResponse :: "jsval \<Rightarrow> jsval \<Rightarrow> jsval \<Rightarrow> bool"
  getResponseDefaults :: jsval
  getResponseSuccessPayload :: "jsval \<Rightarrow> jsval"
  getResponseFailPayload :: "jsval \<Rightarrow> jsval"
  statics :: "string \<Rightarrow> handler option"

definition BaseModel :: model_class where
  "BaseModel =
     \<lparr>timeout = JNum 30000,
      parsers = [],
      rootUrl = JUndefined,
      rootURI = JStr ''/'',
      defaultHandler = (\<lambda>data params. data),
      isValidResponse = (\<lambda>resp textStatus xhr. truthy resp),
      getResponseDefaults = JNull,
      getResponseSuccessPayload = (\<lambda>resp. resp),
      getResponseFailPayload = (\<lambda>resp. resp),
      statics = (\<lambda>name. None)\<rparr>"

text \<open>\<open>Number(this.timeout) || 500\<close>: the falsy numbers are \<open>NaN\<close> and 0.\<close>

definition getAjaxTimeout :: "engine \<Rightarrow> model_class \<Rightarrow> jsnumber" where
  "getAjaxTimeout E cls =
     (if Number E (timeout cls) = NaN \<or> Number E (timeout cls) = Finite 0 then Finite 500
      else Number E (timeout cls))"

text \<open>
  What \<open>request\<close> hands to \<open>this.ajax\<close>.  The \<open>timeout\<close> property, a number of any
  size, is kept apart from the other properties of the options object: \<open>ajax_timeout\<close> is
  the value of \<open>options.timeout\<close> after the assignment, \<open>None\<close> when \<open>options\<close> is a
  primitive value, on which the assignment leaves nothing; \<open>ajax_options\<close> is the options
  object without its \<open>timeout\<close> property.
\<close>

record ajax_call =
  ajax_options :: jsval
  ajax_timeout :: "jsnumber option"

text \<open>\<open>request\<close> up to the transport call.\<close>

definition request :: "engine \<Rightarrow> model_class \<Rightarrow> string \<Rightarrow> jsval \<Rightarrow> jsval \<Rightarrow> ajax_call" where
  "request E cls uri_arg params0 options0 =
     (let options1 = js_or options0 (JObj []);
          params = js_or params0 (JObj []);
          url = to_string (js_or (rootUrl cls) (rootURI cls)) @ uri_arg;
          options2 = defaults options1 (JObj [(''data'', params), (''url'', JStr url)]);
          options3 = delete_prop options2 ''timeout'';
          timeout_set = (if is_object options2 then Some (getAjaxTimeout E cls) else None)
      in \<lparr>ajax_options =
           (if truthy (get_prop options3 ''jsonBody'')
            then set_prop
                   (set_prop
                      (set_prop options3 ''contentType'' (JStr ''application/json''))
                      ''data'' (JSON_stringify (get_prop options3 ''data'')))
                   ''processData'' (JBool False)
            else options3),
         ajax_timeout = timeout_set\<rparr>)"

definition post :: "engine \<Rightarrow> model_class \<Rightarrow> string \<Rightarrow> jsval \<Rightarrow> jsval \<Rightarrow> ajax_call" where
  "post E cls uri_arg params options =
     request E cls uri_arg params (defaults (js_or options (JObj [])) (JObj [(''type'', JStr ''POST'')]))"

definition get :: "engine \<Rightarrow> model_class \<Rightarrow> string \<Rightarrow> jsval \<Rightarrow> jsval \<Rightarrow> ajax_call" where
  "get E cls uri_arg params options =
     request E cls uri_arg params (defaults (js_or options (JObj [])) (JObj [(''type'', JStr ''GET'')]))"

definition put :: "engine \<Rightarrow> model_class \<Rightarrow> string \<Rightarrow> jsval \<Rightarrow> jsval \<Rightarrow> ajax_call" where
  "put E cls uri_arg params options =
     request E cls uri_arg params
       (defaults (js_or options (JObj [])) (JObj [(''type'', JStr ''PUT''), (''jsonBody'', JBool True)]))"

definition del :: "engine \<Rightarrow> model_class \<Rightarrow> string \<Rightarrow> jsval \<Rightarrow> jsval \<Rightarrow> ajax_call" where
  "del E cls uri_arg params options =
     request E cls uri_arg params (defaults (js_or options (JObj [])) (JObj [(''type'', JStr ''DELETE'')]))"

text \<open>
  How a promise of the request chain settles: rejected with a payload, fulfilled with
  one, or rejected with an error thrown inside a \<open>then\<close> callback.
\<close>

datatype outcome = Rejected jsval | Fulfilled jsval | Thrown js_error

definition processResponse :: "model_class \<Rightarrow> jsval \<Rightarrow> jsval \<Rightarrow> jsval \<Rightarrow> outcome" where
  "processResponse cls resp0 textStatus xhr =
     (let resp = (if truthy (getResponseDefaults cls)
                  then defaults (js_or resp0 (JObj [])) (getResponseDefaults cls)
                  else resp0)
      in if \<not> isValidResponse cls (js_or resp (JObj [])) textStatus xhr
         then Rejected (getResponseFailPayload cls (js_or resp (JObj [])))
         else Fulfilled (getResponseSuccessPayload cls (js_or resp (JObj []))))"

text \<open>
  The two \<open>then\<close> steps of \<open>request\<close> once the transport call has answered with
  \<open>(resp, textStatus, xhr)\<close>; \<open>options\<close> is the object \<open>request\<close> built and \<open>params\<close>
  its defaulted parameter.
\<close>

definition request_settle ::
  "model_class \<Rightarrow> string \<Rightarrow> jsval \<Rightarrow> jsval \<Rightarrow> jsval \<Rightarrow> jsval \<Rightarrow> jsval \<Rightarrow> outcome" where
  "request_settle cls uri_arg params0 options resp textStatus xhr =
     (case processResponse cls resp textStatus xhr of
        Fulfilled payload \<Rightarrow>
          (let params = js_or params0 (JObj []) in
           case getParser (parsers cls) uri_arg (get_prop options ''type'') of
             None \<Rightarrow> Fulfilled (js_or (defaultHandler cls payload params) (JObj []))
           | Some (Fn f) \<Rightarrow> Fulfilled (js_or (f payload params) (JObj []))
           | Some (Named fnName) \<Rightarrow>
               (case statics cls fnName of
                  None \<Rightarrow> Thrown (TypeError (''this.'' @ fnName @ '' is undefined''))
                | Some f \<Rightarrow> Fulfilled (js_or (f payload params) (JObj []))))
      | other \<Rightarrow> other)"

section \<open>Model: the route compiler\<close>

text \<open>
  What \<open>createMethod\<close> stores under \<open>routes[fn]\<close>: the closure variables of the
  generated function, namely \<open>method\<close>, \<open>uri\<close>, \<open>route\<close> and \<open>options\<close> (\<open>null\<close> when
  the mapping's value was a string).
\<close>

record route_fn =
  rf_method :: string
  rf_uri :: string
  rf_route :: string
  rf_options :: jsval

definition crud :: "string list" where
  "crud = [''POST'', ''GET'', ''PUT'', ''DEL'']"

definition crudMethods :: "string \<Rightarrow> string" where
  "crudMethods m =
     (if m = ''POST'' then ''requestCreate''
      else if m = ''GET'' then ''requestOne''
      else if m = ''PUT'' then ''requestUpdate''
      else if m = ''DEL'' then ''requestDelete''
      else ''undefined'')"

text \<open>\<open>sections\<close>, \<open>method\<close> and \<open>uri\<close> of \<open>createMethod\<close>.\<close>

definition route_sections :: "string \<Rightarrow> string list" where
  "route_sections route = split_ws (trim route)"

definition route_method :: "string \<Rightarrow> string" where
  "route_method route =
     (case route_sections route of [] \<Rightarrow> ''undefined'' | s # ss \<Rightarrow> toLowerCase (trim s))"

definition route_uri :: "string \<Rightarrow> string" where
  "route_uri route = concat (tl (route_sections route))"

text \<open>The route \<open>newRoute\<close> that the \<open>CRUD\<close> branch builds for the verb \<open>m\<close>.\<close>

definition newRoute :: "string \<Rightarrow> string \<Rightarrow> string" where
  "newRoute m u =
     (m @ '' '' @ u) @
     (if m = ''GET'' then ''/:$0'' else if m = ''PUT'' \<or> m = ''DEL'' then ''/:id'' else [])"

lemma split_go_nonempty: "split_go s cur insp \<noteq> []"
  by (induction s arbitrary: cur insp) auto

lemma trim_end_append:
  assumes "a \<noteq> []" and "\<not> is_space (last a)"
  shows "trim_end (a @ b) = a @ trim_end b"
proof -
  from assms have a: "dropWhile is_space (rev a) = rev a"
    by (cases a rule: rev_cases) auto
  show ?thesis
  proof (cases "\<forall>x\<in>set (rev b). is_space x")
    case True
    then have "dropWhile is_space (rev b) = []" by simp
    moreover have "dropWhile is_space (rev b @ rev a) = dropWhile is_space (rev a)"
      by (rule dropWhile_append2) (use True in auto)
    ultimately show ?thesis using a by (simp add: trim_end_def)
  next
    case False
    then have "dropWhile is_space (rev b @ rev a) = dropWhile is_space (rev b) @ rev a"
      by (auto simp: dropWhile_append1)
    then show ?thesis by (simp add: trim_end_def)
  qed
qed

lemma trim_end_blank: "trim_end (CHR '' '' # rest) = [] \<or> (\<exists>r'. trim_end (CHR '' '' # rest) = CHR '' '' # r')"
proof (cases "\<forall>x\<in>set (rev rest). is_space x")
  case True
  have "dropWhile is_space (rev rest @ [CHR '' '']) = dropWhile is_space [CHR '' '']"
    by (rule dropWhile_append2) (use True in auto)
  then show ?thesis by (simp add: trim_end_def is_space_def)
next
  case False
  then have "dropWhile is_space (rev rest @ [CHR '' '']) = dropWhile is_space (rev rest) @ [CHR '' '']"
    by (auto simp: dropWhile_append1)
  then show ?thesis by (simp add: trim_end_def)
qed

lemma trim_token:
  assumes "m \<noteq> []" and "\<forall>c\<in>set m. \<not> is_space c"
  shows "trim m = m"
proof -
  from assms have "\<not> is_space (hd m)" and lst: "\<not> is_space (last m)" by auto
  with assms(1) have "dropWhile is_space m = m" by (cases m) auto
  then show ?thesis
    using trim_end_append [OF assms(1) lst, of "[]"] by (simp add: trim_def trim_end_def)
qed

lemma split_go_token:
  "\<forall>c\<in>set w. \<not> is_space c \<Longrightarrow> w \<noteq> [] \<Longrightarrow> split_go (w @ s) cur insp = split_go s (rev w @ cur) False"
proof (induction w arbitrary: cur insp)
  case Nil
  then show ?case by simp
next
  case (Cons c w)
  then show ?case by (cases "w = []") auto
qed

text \<open>The first section of a route that starts with a verb and a blank is that verb.\<close>

lemma route_method_verb:
  assumes "m \<noteq> []" and "\<forall>c\<in>set m. \<not> is_space c"
  shows "route_method (m @ CHR '' '' # rest) = toLowerCase m"
proof -
  from assms have hd: "\<not> is_space (hd m)" and lst: "\<not> is_space (last m)" by auto
  from assms(1) hd have "dropWhile is_space (m @ CHR '' '' # rest) = m @ CHR '' '' # rest"
    by (cases m) auto
  then have t: "trim (m @ CHR '' '' # rest) = m @ trim_end (CHR '' '' # rest)"
    using trim_end_append [OF assms(1) lst] by (simp add: trim_def)
  have sp: "is_space CHR '' ''" by (simp add: is_space_def)
  have "\<exists>ss. split_go (m @ trim_end (CHR '' '' # rest)) [] False = m # ss"
    using trim_end_blank [of rest] split_go_token [OF assms(2) assms(1)] sp by auto
  then obtain ss where "route_sections (m @ CHR '' '' # rest) = m # ss"
    using t by (auto simp: route_sections_def split_ws_def)
  then show ?thesis using trim_token [OF assms] by (simp add: route_method_def)
qed

lemma route_method_newRoute:
  assumes "m \<in> set crud"
  shows "route_method (newRoute m u) = toLowerCase m" and "route_method (newRoute m u) \<noteq> ''crud''"
proof -
  from assms have "m \<noteq> []" and "\<forall>c\<in>set m. \<not> is_space c"
    by (auto simp: crud_def is_space_def)
  then have "route_method (m @ CHR '' '' # (u @ (if m = ''GET'' then ''/:$0''
      else if m = ''PUT'' \<or> m = ''DEL'' then ''/:id'' else []))) = toLowerCase m"
    by (rule route_method_verb)
  then show eq: "route_method (newRoute m u) = toLowerCase m" by (simp add: newRoute_def)
  from assms have "toLowerCase m \<noteq> ''crud''"
    by (auto simp: crud_def toLowerCase_def lower_char_def)
  with eq show "route_method (newRoute m u) \<noteq> ''crud''" by simp
qed

text \<open>
  \<open>createMethod(options, route)\<close>, with the table \<open>routes\<close> it writes into passed and
  returned.  The \<open>_.each\<close> over the four verbs of \<open>crud\<close> is written out, one call for
  each verb in the order of the array.  \<open>camelCase\<close> is \<open>StringUtils.camelCase\<close>.
\<close>

function createMethod ::
    "(jsval \<Rightarrow> string) \<Rightarrow> jsval \<Rightarrow> string \<Rightarrow> (string \<times> route_fn) list \<Rightarrow> js_error + (string \<times> route_fn) list"
  and createMethod_body ::
    "(jsval \<Rightarrow> string) \<Rightarrow> jsval \<Rightarrow> jsval \<Rightarrow> string \<Rightarrow> (string \<times> route_fn) list \<Rightarrow> js_error + (string \<times> route_fn) list"
  where
  "createMethod camelCase options route routes =
     (case options of
        JStr s \<Rightarrow> createMethod_body camelCase (JStr s) JNull route routes
      | JObj ps \<Rightarrow> createMethod_body camelCase (get_prop (JObj ps) ''fn'') (JObj ps) route routes
      | other \<Rightarrow> Inl (Error ''The value of the model route mapping must be a string or an object.''))"
| "createMethod_body camelCase fn options route routes =
     (if route_method route = ''crud'' then
        (case createMethod camelCase (JStr (crudMethods ''POST'' @ camelCase fn))
                (newRoute ''POST'' (route_uri route)) routes of
           Inl e \<Rightarrow> Inl e
         | Inr r1 \<Rightarrow>
        (case createMethod camelCase (JStr (crudMethods ''GET'' @ camelCase fn))
                (newRoute ''GET'' (route_uri route)) r1 of
           Inl e \<Rightarrow> Inl e
         | Inr r2 \<Rightarrow>
        (case createMethod camelCase (JStr (crudMethods ''PUT'' @ camelCase fn))
                (newRoute ''PUT'' (route_uri route)) r2 of
           Inl e \<Rightarrow> Inl e
         | Inr r3 \<Rightarrow>
            createMethod camelCase (JStr (crudMethods ''DEL'' @ camelCase fn))
                (newRoute ''DEL'' (route_uri route)) r3)))
      else
        Inr (assign routes (to_string fn)
              \<lparr>rf_method = (if route_method route = ''delete'' then ''del'' else route_method route),
               rf_uri = route_uri route,
               rf_route = route,
               rf_options = options\<rparr>))"
  by pat_completeness auto
termination
  by (relation "measure (\<lambda>x. case x of
          Inl (cc, opts, route, routes) \<Rightarrow> (if route_method route = ''crud'' then 3 else 1)
        | Inr (cc, fn, opts, route, routes) \<Rightarrow> (if route_method route = ''crud'' then 2 else 0))")
     (auto simp: route_method_newRoute(2) crud_def)

declare createMethod.simps [simp del] createMethod_body.simps [simp del]

text \<open>
  \<open>createModelRequestMethods(map)\<close>: \<open>_.each(map, createMethod)\<close> over the entries
  \<open>route: options\<close> of the declared route map, in their order, from the empty table.
\<close>

fun createMethods_each ::
  "(jsval \<Rightarrow> string) \<Rightarrow> (string \<times> jsval) list \<Rightarrow> (string \<times> route_fn) list \<Rightarrow> js_error + (string \<times> route_fn) list" where
  "createMethods_each camelCase [] routes = Inr routes"
| "createMethods_each camelCase (e # es) routes =
     (case createMethod camelCase (snd e) (fst e) routes of
        Inl err \<Rightarrow> Inl err
      | Inr routes' \<Rightarrow> createMethods_each camelCase es routes')"

definition createModelRequestMethods ::
  "(jsval \<Rightarrow> string) \<Rightarrow> (string \<times> jsval) list \<Rightarrow> js_error + (string \<times> route_fn) list" where
  "createModelRequestMethods camelCase routeMap = createMethods_each camelCase routeMap []"

subsection \<open>The generated request function\<close>

text \<open>
  A match of \<open>/:[\$]?\w+/\<close> at the start of \<open>cs\<close>, the colon already read: the name
  matched (with its \<open>$\<close>) and the rest of the string.
\<close>

definition match_name :: "string \<Rightarrow> (string \<times> string) option" where
  "match_name cs =
     (case cs of
        [] \<Rightarrow> None
      | c # r \<Rightarrow>
          if c = CHR ''$'' \<and> takeWhile is_word r \<noteq> []
          then Some (c # takeWhile is_word r, dropWhile is_word r)
          else if takeWhile is_word cs \<noteq> []
          then Some (takeWhile is_word cs, dropWhile is_word cs)
          else None)"

lemma match_name_length: "match_name cs = Some (name, rest) \<Longrightarrow> length rest \<le> length cs"
  by (auto simp: match_name_def length_dropWhile_le le_SucI split: list.splits if_splits)

text \<open>
  \<open>String(uri).replace(/:[\$]?\w+/g, function(match) {..})\<close> with the variables the
  callback updates, \<open>counter\<close> and \<open>toDelete\<close>: the text scanned from left to right,
  every match replaced by the string of what the callback returns, the scan ended by the
  callback's \<open>throw\<close>.
\<close>

text \<open>The guard \<open>data && data[name]\<close> of the callback.\<close>

definition param_present :: "engine \<Rightarrow> jsval \<Rightarrow> string \<Rightarrow> bool" where
  "param_present E data name = (truthy data \<and> truthy_member (js_get E data name))"

function replace_params ::
  "engine \<Rightarrow> string \<Rightarrow> jsval list \<Rightarrow> jsval \<Rightarrow> string \<Rightarrow> nat \<Rightarrow> string list \<Rightarrow>
     js_error + (string \<times> nat \<times> string list)" where
  "replace_params E route args data [] counter toDelete = Inr ([], counter, toDelete)"
| "replace_params E route args data (c # cs) counter toDelete =
     (case (if c = CHR '':'' then match_name cs else None) of
        None \<Rightarrow>
          (case replace_params E route args data cs counter toDelete of
             Inl e \<Rightarrow> Inl e
           | Inr (out, counter', toDelete') \<Rightarrow> Inr (c # out, counter', toDelete'))
      | Some (name, rest) \<Rightarrow>
          if hd name = CHR ''$'' then
            (case replace_params E route args data rest (counter + 1) toDelete of
               Inl e \<Rightarrow> Inl e
             | Inr (out, counter', toDelete') \<Rightarrow>
                 Inr (to_string (arg_at args counter) @ out, counter', toDelete'))
          else if param_present E data name then
            (case replace_params E route args data rest counter (toDelete @ [name]) of
               Inl e \<Rightarrow> Inl e
             | Inr (out, counter', toDelete') \<Rightarrow>
                 Inr (member_text (js_get E data name) @ out, counter', toDelete'))
          else Inl (Error (''The route '' @ route @ '' must include '' @ name @ '' in your params'')))"
  by pat_completeness auto
termination
  by (relation "measure (\<lambda>(E, route, args, data, s, counter, toDelete). length s)")
     (auto dest: match_name_length split: if_splits)

declare replace_params.simps [simp del]

text \<open>
  For the statements about the generated function: the named placeholders of a URI
  template, that is the matches of \<open>/:[\$]?\w+/g\<close> without a \<open>$\<close>, from left to right.
\<close>

function named_params :: "string \<Rightarrow> string list" where
  "named_params [] = []"
| "named_params (c # cs) =
     (case (if c = CHR '':'' then match_name cs else None) of
        None \<Rightarrow> named_params cs
      | Some (name, rest) \<Rightarrow>
          if hd name = CHR ''$'' then named_params rest else name # named_params rest)"
  by pat_completeness auto
termination
  by (relation "measure length") (auto dest: match_name_length split: if_splits)

declare named_params.simps [simp del]

text \<open>The number of positional placeholders, the matches with a \<open>$\<close>.\<close>

function positional_params :: "string \<Rightarrow> nat" where
  "positional_params [] = 0"
| "positional_params (c # cs) =
     (case (if c = CHR '':'' then match_name cs else None) of
        None \<Rightarrow> positional_params cs
      | Some (name, rest) \<Rightarrow>
          if hd name = CHR ''$'' then positional_params rest + 1 else positional_params rest)"
  by pat_completeness auto
termination
  by (relation "measure length") (auto dest: match_name_length split: if_splits)

declare positional_params.simps [simp del]

text \<open>
  The substituted URI as the spec describes it: every positional placeholder replaced by
  the string of the next positional argument, every named one by the string of the
  parameter of that name, the text between them kept.
\<close>

function fill :: "engine \<Rightarrow> jsval list \<Rightarrow> jsval \<Rightarrow> string \<Rightarrow> nat \<Rightarrow> string" where
  "fill E args data [] counter = []"
| "fill E args data (c # cs) counter =
     (case (if c = CHR '':'' then match_name cs else None) of
        None \<Rightarrow> c # fill E args data cs counter
      | Some (name, rest) \<Rightarrow>
          if hd name = CHR ''$'' then to_string (arg_at args counter) @ fill E args data rest (counter + 1)
          else member_text (js_get E data name) @ fill E args data rest counter)"
  by pat_completeness auto
termination
  by (relation "measure (\<lambda>(E, args, data, s, counter). length s)")
     (auto dest: match_name_length split: if_splits)

declare fill.simps [simp del]

text \<open>The error the callback throws for the named placeholder \<open>name\<close>.\<close>

definition missing_param :: "string \<Rightarrow> string \<Rightarrow> js_error" where
  "missing_param route name =
     Error (''The route '' @ route @ '' must include '' @ name @ '' in your params'')"

text \<open>
  The four methods the spec lists for a \<open>CRUD\<close> entry, as the table of generated
  functions: \<open>requestCreate\<close>, \<open>requestOne\<close>, \<open>requestUpdate\<close> and \<open>requestDelete\<close>,
  each followed by \<open>Name\<close>, for \<open>POST name\<close>, \<open>GET name/:$0\<close>, \<open>PUT name/:id\<close> and
  \<open>DEL name/:id\<close>.
\<close>

definition crud_routes :: "string \<Rightarrow> string \<Rightarrow> (string \<times> route_fn) list" where
  "crud_routes Name u =
     [(''requestCreate'' @ Name,
         \<lparr>rf_method = ''post'', rf_uri = u, rf_route = ''POST '' @ u, rf_options = JNull\<rparr>),
      (''requestOne'' @ Name,
         \<lparr>rf_method = ''get'', rf_uri = u @ ''/:$0'', rf_route = ''GET '' @ u @ ''/:$0'', rf_options = JNull\<rparr>),
      (''requestUpdate'' @ Name,
         \<lparr>rf_method = ''put'', rf_uri = u @ ''/:id'', rf_route = ''PUT '' @ u @ ''/:id'', rf_options = JNull\<rparr>),
      (''requestDelete'' @ Name,
         \<lparr>rf_method = ''del'', rf_uri = u @ ''/:id'', rf_route = ''DEL '' @ u @ ''/:id'', rf_options = JNull\<rparr>)]"

text \<open>\<open>routes[k] = f\<close> for every entry of a table, in order.\<close>

definition assign_all :: "(string \<times> 'a) list \<Rightarrow> (string \<times> 'a) list \<Rightarrow> (string \<times> 'a) list" where
  "assign_all routes entries = foldl (\<lambda>r e. assign r (fst e) (snd e)) routes entries"

text \<open>The call \<open>this[method](replacedUri, data, opts)\<close> the generated function ends with.\<close>

datatype method_call = MethodCall string string jsval jsval

text \<open>
  The function stored under \<open>routes[fn]\<close>, applied to its \<open>arguments\<close>.  \<open>_.clone\<close>
  copies; on values there is nothing to copy.
\<close>

definition route_call :: "engine \<Rightarrow> route_fn \<Rightarrow> jsval list \<Rightarrow> js_error + method_call" where
  "route_call E rf args =
     (case replace_params E (rf_route rf) args (arg_at args 0) (rf_uri rf) 0 [] of
        Inl e \<Rightarrow> Inl e
      | Inr (replacedUri, counter, toDelete) \<Rightarrow>
          (let data = js_or (arg_at args counter) (JObj []);
               opts = js_or (arg_at args (counter + 1)) (JObj []);
               data' = foldl delete_prop data toDelete;
               opts' = (if truthy (rf_options rf) then defaults opts (rf_options rf) else opts)
           in Inr (MethodCall (rf_method rf) replacedUri data' opts')))"

text \<open>
  \<open>this[method](..)\<close> for the four verb shorthands: the options that reach the
  transport.  Any other method name is not a request shorthand (\<open>None\<close>).
\<close>

definition dispatch :: "engine \<Rightarrow> model_class \<Rightarrow> method_call \<Rightarrow> ajax_call option" where
  "dispatch E cls call =
     (case call of MethodCall m u data opts \<Rightarrow>
        if m = ''get'' then Some (get E cls u data opts)
        else if m = ''post'' then Some (post E cls u data opts)
        else if m = ''put'' then Some (put E cls u data opts)
        else if m = ''del'' then Some (del E cls u data opts)
        else None)"

text \<open>
  Modelled from the spec: \<open>StringUtils.camelCase\<close> and \<open>StringUtils.camelCaseFromNamespace\<close>
  (module \<open>./stringutils\<close>) are not among the sources.  The spec calls
  \<open>camelCase\<close> the camel-cased form of a name (\<open>title\<close> gives \<open>Title\<close>, \<open>widget\<close> gives
  \<open>Widget\<close>) and \<open>camelCaseFromNamespace\<close> the camel-cased full dotted path: each word
  gets an upper-case first letter, and the separators between words go.
\<close>

fun camel_go :: "string \<Rightarrow> bool \<Rightarrow> string" where
  "camel_go [] up = []"
| "camel_go (c # cs) up =
     (if c \<in> set '' -_.'' then camel_go cs True
      else (if up then upper_char c else c) # camel_go cs False)"

text \<open>
  Modelled from the spec: \<open>StringUtils.camelCase\<close>, missing from the sources; the
  camel-cased form of the string of its argument.
\<close>

definition camelCase :: "jsval \<Rightarrow> string" where
  "camelCase v = camel_go (to_string v) True"

text \<open>
  Modelled from the spec: \<open>StringUtils.camelCaseFromNamespace\<close>, missing from the sources;
  the camel-cased segments of a dotted path, joined.
\<close>

definition camelCaseFromNamespace :: "jsval \<Rightarrow> string" where
  "camelCaseFromNamespace v = concat (map (\<lambda>s. camel_go s True) (split_dot (to_string v)))"

section \<open>Controller: property synchronisation\<close>

text \<open>
  One call of \<open>sync\<close> makes one binding: a closure over \<open>hasListened\<close> and
  \<open>previousValue\<close>, a listener for \<open>change:propertyName\<close> on the target and, while
  a view push is deferred, a one-shot listener for \<open>change:available\<close> on the view.
  The target object, the view and the handlers are collaborators.  Of them the state holds
  what the binding reads: the value \<open>getter()\<close> returns, what \<open>view.getAvailable()\<close>
  returns, and the one-shot listeners this binding has registered on the view and that have
  not fired yet, each with the \<open>prev\<close> it closes over.  The handler calls the binding
  makes are recorded in \<open>calls\<close>, in order.
\<close>

datatype sync_call =
    Method string "jsval list"
  | Callback "jsval list"

record sync_state =
  prop_value :: jsval
  view_available :: bool
  hasListened :: bool
  previousValue :: jsval
  listeners :: "jsval list"
  calls :: "sync_call list"

text \<open>
  The \<open>filter\<close> option: falsy, the name of a controller method, or a function.  A filter
  is called with the controller as \<open>this\<close>; its verdict may depend on the state.
\<close>

datatype sync_filter =
    NoFilter
  | FilterName string
  | FilterFunction "sync_state \<Rightarrow> bool"

text \<open>The options a caller may pass; \<open>JUndefined\<close> is a key not given.\<close>

record sync_options =
  trigger :: jsval
  triggerView :: jsval
  targetHandler :: jsval
  viewHandler :: jsval
  filter_opt :: sync_filter

text \<open>The second argument of \<open>sync\<close>: an options object, a function, or nothing.\<close>

datatype sync_arg = Options sync_options | Function | Absent

text \<open>
  The controller as \<open>sync\<close> looks at it: the names \<open>k\<close> for which \<open>this[k]\<close> is truthy,
  and for the names of functions usable as filters what they answer.
\<close>

record sync_controller =
  members :: "string list"
  filters :: "string \<Rightarrow> (sync_state \<Rightarrow> bool) option"

text \<open>The closure constants of a binding, after the defaults.\<close>

record binding =
  property :: string
  propertyName :: string
  fnController :: jsval
  fnView :: jsval
  fn_given :: bool
  filterFn :: "sync_state \<Rightarrow> bool"
  that :: sync_controller
  options_trigger :: jsval
  options_triggerView :: jsval
  target_trigger :: bool

definition dflt :: "jsval \<Rightarrow> jsval \<Rightarrow> jsval" where
  "dflt v d = (if v = JUndefined then d else v)"

text \<open>
  The first half of \<open>sync\<close>: the two call shapes, the defaults and the choice of the
  filter.  \<open>camel_ns\<close> is \<open>StringUtils.camelCaseFromNamespace\<close>, \<open>fn_is_function\<close> says
  whether \<open>options.fn\<close> (by default the third argument) is a function, and \<open>obj_trigger\<close>
  whether the target has a \<open>trigger\<close> method.
\<close>

definition sync_binding ::
  "(jsval \<Rightarrow> string) \<Rightarrow> sync_controller \<Rightarrow> string \<Rightarrow> sync_arg \<Rightarrow> bool \<Rightarrow> bool \<Rightarrow> binding" where
  "sync_binding camel_ns ctl prop arg fn_is_function obj_trigger =
     (let sections = split_dot prop;
          name = last sections;
          given = (case arg of
                     Options os \<Rightarrow> os
                   | Function \<Rightarrow> \<lparr>trigger = JBool True, triggerView = JUndefined,
                        targetHandler = JNull, viewHandler = JNull, filter_opt = NoFilter\<rparr>
                   | Absent \<Rightarrow> \<lparr>trigger = JUndefined, triggerView = JUndefined,
                        targetHandler = JUndefined, viewHandler = JUndefined, filter_opt = NoFilter\<rparr>)
      in \<lparr>property = prop,
          propertyName = name,
          fnController = dflt (targetHandler given) (JStr (name @ ''DidChange'')),
          fnView = dflt (viewHandler given)
                     (JStr (''refresh'' @ camel_ns (JStr prop) @ ''PropertyOnView'')),
          fn_given = (case arg of Function \<Rightarrow> True | other \<Rightarrow> fn_is_function),
          filterFn = (case filter_opt given of
                        NoFilter \<Rightarrow> (\<lambda>s. True)
                      | FilterName n \<Rightarrow> (case filters ctl n of Some f \<Rightarrow> f | None \<Rightarrow> (\<lambda>s. True))
                      | FilterFunction f \<Rightarrow> f),
          that = ctl,
          options_trigger = dflt (trigger given) (JBool False),
          options_triggerView = dflt (triggerView given) (JBool True),
          target_trigger = obj_trigger\<rparr>)"

text \<open>\<open>this[k]\<close> is truthy\<close>

definition has_member :: "binding \<Rightarrow> jsval \<Rightarrow> bool" where
  "has_member b k = (to_string k \<in> set (members (that b)))"

definition record_call :: "sync_call \<Rightarrow> sync_state \<Rightarrow> sync_state" where
  "record_call c s = s\<lparr>calls := calls s @ [c]\<rparr>"

definition updateOnAvaible :: "jsval \<Rightarrow> sync_state \<Rightarrow> sync_state" where
  "updateOnAvaible prev s =
     (if hasListened s then s
      else s\<lparr>hasListened := True, listeners := listeners s @ [prev]\<rparr>)"

definition updateView :: "binding \<Rightarrow> jsval \<Rightarrow> sync_state \<Rightarrow> sync_state" where
  "updateView b prev s =
     (if has_member b (fnView b) then
        (if view_available s
         then record_call (Method (to_string (fnView b)) [prop_value s, prev]) s
         else updateOnAvaible prev s)
      else s)"

text \<open>The listener for \<open>change:propertyName\<close> on the target.\<close>

definition on_change :: "binding \<Rightarrow> sync_state \<Rightarrow> sync_state" where
  "on_change b s =
     (let currentValue = prop_value s in
      if filterFn b s then
        (let s1 = (if has_member b (fnController b)
                   then record_call (Method (to_string (fnController b)) [currentValue, previousValue s]) s
                   else s);
             s2 = (if fn_given b then record_call (Callback [currentValue, previousValue s1]) s1 else s1);
             s3 = updateView b (previousValue s2) s2
         in s3\<lparr>previousValue := currentValue\<rparr>)
      else s)"

text \<open>
  The one-shot listener \<open>updateOnAvaible\<close> registers: \<open>hasListened = false; updateView(prev)\<close>.
\<close>

definition deferred_push :: "binding \<Rightarrow> sync_state \<Rightarrow> jsval \<Rightarrow> sync_state" where
  "deferred_push b s prev = updateView b prev (s\<lparr>hasListened := False\<rparr>)"

text \<open>
  The view fires \<open>change:available\<close>: every one-shot listener registered so far is taken
  off and runs once, in the order of registration; one registered meanwhile waits for the
  next event.
\<close>

definition fire_available :: "binding \<Rightarrow> sync_state \<Rightarrow> sync_state" where
  "fire_available b s = foldl (deferred_push b) (s\<lparr>listeners := []\<rparr>) (listeners s)"

text \<open>The second half of \<open>sync\<close>, after the listener is in place.\<close>

definition sync :: "binding \<Rightarrow> sync_state \<Rightarrow> sync_state" where
  "sync b s =
     (let s1 = (if options_triggerView b = JBool True \<and> filterFn b s then updateView b JUndefined s else s);
          s2 = (if options_trigger b = JBool True \<and> target_trigger b then on_change b s1 else s1)
      in s2\<lparr>previousValue := prop_value s2\<rparr>)"

text \<open>
  What happens to a binding afterwards: the watched property is set to a value and the
  target notifies \<open>change:propertyName\<close>, or the view's \<open>available\<close> property becomes
  \<open>a\<close> and the view notifies \<open>change:available\<close>.
\<close>

datatype sync_event = Change jsval | Available bool

fun step :: "binding \<Rightarrow> sync_state \<Rightarrow> sync_event \<Rightarrow> sync_state" where
  "step b s (Change v) = on_change b (s\<lparr>prop_value := v\<rparr>)"
| "step b s (Available a) = fire_available b (s\<lparr>view_available := a\<rparr>)"

definition run :: "binding \<Rightarrow> sync_state \<Rightarrow> sync_event list \<Rightarrow> sync_state" where
  "run b s evs = foldl (step b) s evs"

text \<open>A controller before \<open>sync\<close> is called: nothing listened for, nothing called yet.\<close>

definition fresh :: "jsval \<Rightarrow> bool \<Rightarrow> sync_state" where
  "fresh v a =
     \<lparr>prop_value = v, view_available = a, hasListened = False, previousValue = JUndefined,
      listeners = [], calls = []\<rparr>"

text \<open>
  The invariant of a binding: a one-shot listener is registered exactly while \<open>hasListened\<close>
  is set, and then it is the only one.
\<close>

definition pending_ok :: "sync_state \<Rightarrow> bool" where
  "pending_ok s = (if hasListened s then length (listeners s) = 1 else listeners s = [])"

text \<open>
  The scenario of the spec: a controller with the two handlers \<open>titleDidChange\<close> and
  \<open>refreshTitlePropertyOnView\<close> that calls \<open>sync('title')\<close>, the target having a
  \<open>trigger\<close> method.
\<close>

definition title_controller :: sync_controller where
  "title_controller =
     \<lparr>members = [''titleDidChange'', ''refreshTitlePropertyOnView''], filters = (\<lambda>n. None)\<rparr>"

definition title_binding :: binding where
  "title_binding = sync_binding camelCaseFromNamespace title_controller ''title'' Absent False True"

section \<open>Teardown: theorems\<close>

lemma unbind_loop_eq:
  "unbind_loop c = c\<lparr>unbind := [], trace := trace c @ map Teardown (rev (unbind c))\<rparr>"
proof (induction c rule: unbind_loop.induct)
  case (1 c)
  show ?case
  proof (cases "unbind c = []")
    case True
    then show ?thesis by (simp add: unbind_loop.simps [of c])
  next
    case False
    then have split: "unbind c = butlast (unbind c) @ [last (unbind c)]" by simp
    have r: "rev (unbind c) = last (unbind c) # rev (butlast (unbind c))"
      by (subst split) simp
    from False have "unbind_loop c =
        unbind_loop (c\<lparr>unbind := butlast (unbind c), trace := trace c @ [Teardown (last (unbind c))]\<rparr>)"
      by (simp add: unbind_loop.simps [of c])
    also from False have "\<dots> = c\<lparr>unbind := [],
        trace := trace c @ Teardown (last (unbind c)) # map Teardown (rev (butlast (unbind c)))\<rparr>"
      using 1 by simp
    also have "\<dots> = c\<lparr>unbind := [], trace := trace c @ map Teardown (rev (unbind c))\<rparr>"
      by (simp only: r list.map)
    finally show ?thesis .
  qed
qed

text \<open>
  C9.  \<open>unload\<close> on a controller that is already unloaded changes nothing.  On one that is
  not, it calls the teardown callbacks of \<open>_unbind\<close> last-registered first and empties the
  array, sets \<open>_unloaded\<close>, triggers \<open>unload\<close> and then calls the view's \<open>unload\<close> with the
  callback.  A second \<open>unload\<close> after the first is therefore a no-op: twice is the same as
  once.
\<close>

theorem unload_idempotent:
  "(unloaded c \<longrightarrow> unload cb c = (None, c)) \<and>
   (\<not> unloaded c \<longrightarrow>
      snd (unload cb c) =
        c\<lparr>unloaded := True, unbind := [],
          trace := trace c @ map Teardown (rev (unbind c)) @ [Trigger ''unload''] @
                   (case ctl_view c of None \<Rightarrow> [] | Some v \<Rightarrow> [ViewUnload v cb])\<rparr>) \<and>
   unload cb' (snd (unload cb c)) = (None, snd (unload cb c))"
proof -
  have already: "unload k d = (None, d)" if "unloaded d" for k and d :: "('a, 'b) controller"
    using that by (simp add: unload_def)
  have first: "snd (unload cb c) =
        c\<lparr>unloaded := True, unbind := [],
          trace := trace c @ map Teardown (rev (unbind c)) @ [Trigger ''unload''] @
                   (case ctl_view c of None \<Rightarrow> [] | Some v \<Rightarrow> [ViewUnload v cb])\<rparr>"
    if "\<not> unloaded c"
    using that by (simp add: unload_def unbind_loop_eq Let_def split: option.splits)
  have marked: "unloaded (snd (unload cb c))"
  proof (cases "unloaded c")
    case True
    then show ?thesis by (simp add: already)
  next
    case False
    then show ?thesis by (simp add: first)
  qed
  from already first marked show ?thesis by (simp add: already)
qed

theorem unload_idempotent_witness:
  "\<not> unloaded \<lparr>unloaded = False, unbind = [1, 2, 3 :: nat], ctl_view = Some (0 :: nat), trace = []\<rparr> \<and>
   snd (unload JNull \<lparr>unloaded = False, unbind = [1, 2, 3 :: nat], ctl_view = Some (0 :: nat), trace = []\<rparr>) =
     \<lparr>unloaded = True, unbind = [], ctl_view = Some 0,
      trace = [Teardown 3, Teardown 2, Teardown 1, Trigger ''unload'', ViewUnload 0 JNull]\<rparr> \<and>
   unload JUndefined
     (snd (unload JNull \<lparr>unloaded = False, unbind = [1, 2, 3 :: nat], ctl_view = Some (0 :: nat), trace = []\<rparr>)) =
     (None, \<lparr>unloaded = True, unbind = [], ctl_view = Some 0,
      trace = [Teardown 3, Teardown 2, Teardown 1, Trigger ''unload'', ViewUnload 0 JNull]\<rparr>) \<and>
   unloaded \<lparr>unloaded = True, unbind = [4 :: nat], ctl_view = Some (0 :: nat), trace = []\<rparr> \<and>
   unload JNull \<lparr>unloaded = True, unbind = [4 :: nat], ctl_view = Some (0 :: nat), trace = []\<rparr> =
     (None, \<lparr>unloaded = True, unbind = [4], ctl_view = Some 0, trace = []\<rparr>)"
proof -
  let ?c = "\<lparr>unloaded = False, unbind = [1, 2, 3 :: nat], ctl_view = Some (0 :: nat), trace = []\<rparr>"
  have first: "snd (unload JNull ?c) =
     \<lparr>unloaded = True, unbind = [], ctl_view = Some 0,
      trace = [Teardown 3, Teardown 2, Teardown 1, Trigger ''unload'', ViewUnload 0 JNull]\<rparr>"
    using unload_idempotent [of ?c JNull JUndefined] by simp
  have again: "unload JUndefined (snd (unload JNull ?c)) = (None, snd (unload JNull ?c))"
    using unload_idempotent [of ?c JNull JUndefined] by blast
  have noop: "unload JNull \<lparr>unloaded = True, unbind = [4 :: nat], ctl_view = Some (0 :: nat), trace = []\<rparr> =
     (None, \<lparr>unloaded = True, unbind = [4], ctl_view = Some 0, trace = []\<rparr>)"
    using unload_idempotent [of "\<lparr>unloaded = True, unbind = [4 :: nat], ctl_view = Some (0 :: nat), trace = []\<rparr>" JNull JNull]
    by simp
  show ?thesis using again noop unfolding first by simp
qed

text \<open>
  \<open>destroy\<close> unloads only a controller that is not unloaded yet, so the teardown callbacks
  run once on the way to destruction as well.
\<close>

lemma destroy_after_unload:
  "unloaded c \<Longrightarrow> destroy c = (None, (destroyView c)\<lparr>trace := trace (destroyView c) @ [SuperDestroy]\<rparr>)"
  by (simp add: destroy_def Let_def)

lemma destroy_unloads_once:
  "\<not> unloaded c \<Longrightarrow> ctl_view c = Some v \<Longrightarrow>
   snd (destroy c) =
     c\<lparr>unloaded := True, unbind := [], ctl_view := None,
       trace := trace c @ map Teardown (rev (unbind c)) @
                [Trigger ''unload'', ViewUnload v JUndefined, ViewDestroy v, SuperDestroy]\<rparr>"
  by (simp add: destroy_def unload_def unbind_loop_eq destroyView_def Let_def)

section \<open>Request engine: theorems\<close>

text \<open>
  C2.  The claim has a response body of \<open>null\<close> rejected whatever \<open>isValidResponse\<close> says,
  and the comment in \<open>processResponse\<close> says the same (a NULL response is rejected).  The
  code passes \<open>resp || {}\<close> to \<open>isValidResponse\<close>, and the default \<open>isValidResponse\<close>
  finds the empty object truthy: on the base class a \<open>null\<close> body is fulfilled with
  \<open>{}\<close>, by \<open>processResponse\<close> and by the whole request.
\<close>

theorem processResponse_null_body:
  "processResponse BaseModel JNull textStatus xhr = Fulfilled (JObj []) \<and>
   request_settle BaseModel u params options JNull textStatus xhr = Fulfilled (JObj [])"
  by (simp add: processResponse_def request_settle_def BaseModel_def js_or_def getParser_def)

lemma map_of_assign: "map_of (assign ps k v) k' = (if k' = k then Some v else map_of ps k')"
  by (induction ps) auto

lemma is_object_set_prop [simp]: "is_object (set_prop obj k v) = is_object obj"
  by (cases obj) auto

lemma is_object_delete_prop [simp]: "is_object (delete_prop obj k) = is_object obj"
  by (cases obj) auto

lemma get_prop_set_prop:
  "is_object obj \<Longrightarrow> get_prop (set_prop obj k v) k' = (if k' = k then v else get_prop obj k')"
  by (cases obj) (auto simp: map_of_assign)

lemma get_prop_delete_prop:
  "get_prop (delete_prop obj k) k' = (if k' = k then JUndefined else get_prop obj k')"
proof (cases obj)
  case (JObj ps)
  have "map_of (filter (\<lambda>p. fst p \<noteq> k) ps) k' = (if k' = k then None else map_of ps k')"
    by (induction ps) auto
  with JObj show ?thesis by simp
qed simp_all

lemma is_object_defaults_props [simp]: "is_object (defaults_props obj ds) = is_object obj"
  by (induction ds arbitrary: obj) auto

lemma is_object_js_or [simp]: "is_object (js_or v (JObj ps)) = (is_object v \<or> \<not> truthy v)"
  by (cases v) (auto simp: js_or_def)

lemma truthy_object: "is_object v \<Longrightarrow> truthy v"
  by (cases v) auto

text \<open>What \<open>request\<close> hands to the transport, key by key.\<close>

lemma request_timeout_key:
  assumes "is_object options \<or> \<not> truthy options"
  shows "ajax_timeout (request E cls u params options) = Some (getAjaxTimeout E cls)"
    and "get_prop (ajax_options (request E cls u params options)) ''timeout'' = JUndefined"
  using assms by (auto simp: request_def Let_def get_prop_set_prop get_prop_delete_prop)

lemma request_plain_data:
  assumes "is_object options" and "\<not> truthy (get_prop options ''jsonBody'')"
    and "get_prop options ''data'' = JUndefined" and "truthy params"
  shows "get_prop (ajax_options (request E cls u params options)) ''data'' = params"
  using assms
  by (auto simp: request_def Let_def get_prop_set_prop get_prop_delete_prop js_or_def truthy_object)

lemma request_plain_other:
  assumes "is_object options" and "\<not> truthy (get_prop options ''jsonBody'')"
    and "k \<noteq> ''timeout''" and "k \<noteq> ''data''" and "k \<noteq> ''url''"
  shows "get_prop (ajax_options (request E cls u params options)) k = get_prop options k"
  using assms
  by (auto simp: request_def Let_def get_prop_set_prop get_prop_delete_prop js_or_def truthy_object)

lemma request_json:
  assumes "is_object options" and "truthy (get_prop options ''jsonBody'')"
    and "get_prop options ''data'' = JUndefined" and "truthy params"
  shows "get_prop (ajax_options (request E cls u params options)) ''data'' = JSON_stringify params"
    and "get_prop (ajax_options (request E cls u params options)) ''contentType'' = JStr ''application/json''"
    and "get_prop (ajax_options (request E cls u params options)) ''processData'' = JBool False"
  using assms
  by (auto simp: request_def Let_def get_prop_set_prop get_prop_delete_prop js_or_def truthy_object)

lemma request_json_data:
  assumes "is_object options" and "truthy (get_prop options ''jsonBody'')"
    and "get_prop options ''data'' \<noteq> JUndefined"
  shows "get_prop (ajax_options (request E cls u params options)) ''data'' =
           JSON_stringify (get_prop options ''data'')"
  using assms
  by (auto simp: request_def Let_def get_prop_set_prop get_prop_delete_prop js_or_def truthy_object)

lemma get_prop_defaults_single:
  "is_object obj \<Longrightarrow> get_prop (defaults obj (JObj [(k, v)])) k' =
     (if k' = k \<and> get_prop obj k = JUndefined then v else get_prop obj k')"
  by (auto simp: get_prop_set_prop)

lemma JSON_a1: \<open>JSON_stringify (JObj [(''a'', JNum 1)]) = JStr ''{"a":1}''\<close>
  by (simp add: JSON_stringify_def json_quote_def json_escape_def string_of_int_def
      string_of_nat.simps digit_char_def)

lemma JSON_b2: \<open>JSON_stringify (JObj [(''b'', JNum 2)]) = JStr ''{"b":2}''\<close>
  by (simp add: JSON_stringify_def json_quote_def json_escape_def string_of_int_def
      string_of_nat.simps digit_char_def)

text \<open>\<open>Number\<close> on the strings the model reads itself.\<close>

lemma Number_soon: "StringToNumber E ''soon'' = NaN"
  by (simp add: StringToNumber_def is_ascii_def trim_def trim_end_def is_space_def)

lemma Number_1500: "StringToNumber E ''1500'' = Finite 1500"
  by (simp add: StringToNumber_def is_ascii_def trim_def trim_end_def is_space_def is_digit_def
      nat_of_digits_def digit_val_def)

text \<open>
  C8 (as amended).  Every request sets the \<open>timeout\<close> option to \<open>getAjaxTimeout()\<close>,
  whatever the caller's options say.  That value is the number the class's \<open>timeout\<close>
  converts to, and 500 when the conversion gives \<open>NaN\<close> (an unset or non-numeric
  \<open>timeout\<close>) or gives 0.  The base class declares 30000, which is what a class that does
  not override \<open>timeout\<close> applies.
\<close>

theorem request_timeout:
  "ajax_timeout (request E cls u params (JObj ps)) = Some (getAjaxTimeout E cls) \<and>
   ajax_timeout (request E cls u params JUndefined) = Some (getAjaxTimeout E cls) \<and>
   (Number E (timeout cls) = NaN \<longrightarrow> getAjaxTimeout E cls = Finite 500) \<and>
   (Number E (timeout cls) = Finite 0 \<longrightarrow> getAjaxTimeout E cls = Finite 500) \<and>
   (Number E (timeout cls) \<noteq> NaN \<and> Number E (timeout cls) \<noteq> Finite 0 \<longrightarrow>
      getAjaxTimeout E cls = Number E (timeout cls)) \<and>
   getAjaxTimeout E BaseModel = Finite 30000"
  by (simp add: request_timeout_key getAjaxTimeout_def BaseModel_def)

theorem request_timeout_witness:
  "Number example_engine (timeout (BaseModel\<lparr>timeout := JUndefined\<rparr>)) = NaN \<and>
   getAjaxTimeout example_engine (BaseModel\<lparr>timeout := JUndefined\<rparr>) = Finite 500 \<and>
   Number example_engine (timeout (BaseModel\<lparr>timeout := JStr ''soon''\<rparr>)) = NaN \<and>
   getAjaxTimeout example_engine (BaseModel\<lparr>timeout := JStr ''soon''\<rparr>) = Finite 500 \<and>
   Number example_engine (timeout (BaseModel\<lparr>timeout := JNull\<rparr>)) = Finite 0 \<and>
   getAjaxTimeout example_engine (BaseModel\<lparr>timeout := JNull\<rparr>) = Finite 500 \<and>
   Number example_engine (timeout (BaseModel\<lparr>timeout := JNum 1500\<rparr>)) = Finite 1500 \<and>
   getAjaxTimeout example_engine (BaseModel\<lparr>timeout := JNum 1500\<rparr>) = Finite 1500 \<and>
   getAjaxTimeout example_engine (BaseModel\<lparr>timeout := JStr ''1500''\<rparr>) = Finite 1500 \<and>
   getAjaxTimeout (example_engine\<lparr>string_number := (\<lambda>s. if s = ''1e3'' then Finite 1000 else NaN)\<rparr>)
       (BaseModel\<lparr>timeout := JStr ''1e3''\<rparr>) = Finite 1000 \<and>
   ajax_timeout (request example_engine (BaseModel\<lparr>timeout := JNum 1500\<rparr>) ''foo'' JUndefined
       (JObj [(''timeout'', JNum 7)])) = Some (Finite 1500)"
proof -
  let ?E3 = "example_engine\<lparr>string_number := (\<lambda>s. if s = ''1e3'' then Finite 1000 else NaN)\<rparr>"
  have e3: "StringToNumber ?E3 ''1e3'' = Finite 1000"
    by (simp add: StringToNumber_def is_ascii_def trim_def trim_end_def is_space_def is_digit_def)
  have a: "getAjaxTimeout example_engine (BaseModel\<lparr>timeout := JUndefined\<rparr>) = Finite 500"
    using request_timeout [of example_engine "BaseModel\<lparr>timeout := JUndefined\<rparr>"] by simp
  have b: "getAjaxTimeout example_engine (BaseModel\<lparr>timeout := JStr ''soon''\<rparr>) = Finite 500"
    using request_timeout [of example_engine "BaseModel\<lparr>timeout := JStr ''soon''\<rparr>"]
    by (simp add: Number_soon)
  have c: "getAjaxTimeout example_engine (BaseModel\<lparr>timeout := JNull\<rparr>) = Finite 500"
    using request_timeout [of example_engine "BaseModel\<lparr>timeout := JNull\<rparr>"] by simp
  have d: "getAjaxTimeout example_engine (BaseModel\<lparr>timeout := JNum 1500\<rparr>) = Finite 1500"
    and r: "ajax_timeout (request example_engine (BaseModel\<lparr>timeout := JNum 1500\<rparr>) ''foo'' JUndefined
       (JObj [(''timeout'', JNum 7)])) = Some (Finite 1500)"
    using request_timeout [of example_engine "BaseModel\<lparr>timeout := JNum 1500\<rparr>" "''foo''" JUndefined
        "[(''timeout'', JNum 7)]"] by simp_all
  have e: "getAjaxTimeout example_engine (BaseModel\<lparr>timeout := JStr ''1500''\<rparr>) = Finite 1500"
    using request_timeout [of example_engine "BaseModel\<lparr>timeout := JStr ''1500''\<rparr>"]
    by (simp add: Number_1500)
  have f: "getAjaxTimeout ?E3 (BaseModel\<lparr>timeout := JStr ''1e3''\<rparr>) = Finite 1000"
    using request_timeout [of ?E3 "BaseModel\<lparr>timeout := JStr ''1e3''\<rparr>"] e3
    by simp
  from a b c d e f r show ?thesis by (simp add: Number_soon)
qed

text \<open>
  The claim as stated has every request apply the configured timeout whenever that is a
  valid number.  0 is a valid number, and a class configured with it sends 500.
\<close>

theorem request_timeout_zero_counterexample:
  "Number example_engine (timeout (BaseModel\<lparr>timeout := JNum 0\<rparr>)) = Finite 0 \<and>
   ajax_timeout (request example_engine (BaseModel\<lparr>timeout := JNum 0\<rparr>) ''foo'' JUndefined JUndefined)
     = Some (Finite 500)"
  by (simp add: request_def getAjaxTimeout_def js_or_def Let_def)

text \<open>
  C7 (as amended).  With \<open>jsonBody\<close> set in the options, no \<open>data\<close> option given by the
  caller and the parameters \<open>{a: 1}\<close>, the body handed to the transport is the JSON text of
  \<open>{a: 1}\<close>, the content type is \<open>application/json\<close> and \<open>processData\<close> is \<open>false\<close>;
  when the caller gives a \<open>data\<close> option, the body is the JSON text of that option.
  Called without a \<open>jsonBody\<close> and a \<open>data\<close> option, \<open>put\<close> sends the same JSON body, while
  \<open>get\<close>, \<open>post\<close> and \<open>del\<close> leave \<open>jsonBody\<close> unset and send the parameter object,
  content type and \<open>processData\<close> as the caller gave them.
\<close>

theorem request_jsonBody:
  \<open>(truthy (get_prop (JObj ps) ''jsonBody'') \<and> get_prop (JObj ps) ''data'' = JUndefined \<longrightarrow>
      get_prop (ajax_options (request E cls u (JObj [(''a'', JNum 1)]) (JObj ps))) ''data'' = JStr ''{"a":1}'' \<and>
      get_prop (ajax_options (request E cls u (JObj [(''a'', JNum 1)]) (JObj ps))) ''contentType'' = JStr ''application/json'' \<and>
      get_prop (ajax_options (request E cls u (JObj [(''a'', JNum 1)]) (JObj ps))) ''processData'' = JBool False) \<and>
   (truthy (get_prop (JObj ps) ''jsonBody'') \<and> get_prop (JObj ps) ''data'' \<noteq> JUndefined \<longrightarrow>
      get_prop (ajax_options (request E cls u params (JObj ps))) ''data'' =
        JSON_stringify (get_prop (JObj ps) ''data'')) \<and>
   (get_prop (JObj ps) ''jsonBody'' = JUndefined \<and> get_prop (JObj ps) ''data'' = JUndefined \<longrightarrow>
      get_prop (ajax_options (put E cls u (JObj [(''a'', JNum 1)]) (JObj ps))) ''data'' = JStr ''{"a":1}'' \<and>
      get_prop (ajax_options (put E cls u (JObj [(''a'', JNum 1)]) (JObj ps))) ''contentType'' = JStr ''application/json'' \<and>
      get_prop (ajax_options (put E cls u (JObj [(''a'', JNum 1)]) (JObj ps))) ''processData'' = JBool False \<and>
      (\<forall>send \<in> {get, post, del}.
         get_prop (ajax_options (send E cls u (JObj [(''a'', JNum 1)]) (JObj ps))) ''data'' = JObj [(''a'', JNum 1)] \<and>
         get_prop (ajax_options (send E cls u (JObj [(''a'', JNum 1)]) (JObj ps))) ''jsonBody'' = JUndefined \<and>
         get_prop (ajax_options (send E cls u (JObj [(''a'', JNum 1)]) (JObj ps))) ''contentType'' = get_prop (JObj ps) ''contentType'' \<and>
         get_prop (ajax_options (send E cls u (JObj [(''a'', JNum 1)]) (JObj ps))) ''processData'' = get_prop (JObj ps) ''processData''))\<close>
proof (intro conjI impI)
  assume h: "truthy (get_prop (JObj ps) ''jsonBody'') \<and> get_prop (JObj ps) ''data'' = JUndefined"
  then show \<open>get_prop (ajax_options (request E cls u (JObj [(''a'', JNum 1)]) (JObj ps))) ''data'' = JStr ''{"a":1}''\<close>
    using request_json(1) [of "JObj ps" "JObj [(''a'', JNum 1)]" E cls u] JSON_a1 by simp
  from h show "get_prop (ajax_options (request E cls u (JObj [(''a'', JNum 1)]) (JObj ps))) ''contentType'' = JStr ''application/json''"
    using request_json(2) [of "JObj ps" "JObj [(''a'', JNum 1)]" E cls u] by simp
  from h show "get_prop (ajax_options (request E cls u (JObj [(''a'', JNum 1)]) (JObj ps))) ''processData'' = JBool False"
    using request_json(3) [of "JObj ps" "JObj [(''a'', JNum 1)]" E cls u] by simp
next
  assume "truthy (get_prop (JObj ps) ''jsonBody'') \<and> get_prop (JObj ps) ''data'' \<noteq> JUndefined"
  then show "get_prop (ajax_options (request E cls u params (JObj ps))) ''data'' =
        JSON_stringify (get_prop (JObj ps) ''data'')"
    using request_json_data [of "JObj ps" E cls u params] by simp
next
  assume h: "get_prop (JObj ps) ''jsonBody'' = JUndefined \<and> get_prop (JObj ps) ''data'' = JUndefined"
  let ?o = "defaults (js_or (JObj ps) (JObj [])) (JObj [(''type'', JStr ''PUT''), (''jsonBody'', JBool True)])"
  have o: "is_object ?o" "truthy (get_prop ?o ''jsonBody'')" "get_prop ?o ''data'' = JUndefined"
    using h by (auto simp: js_or_def get_prop_set_prop map_of_assign)
  show \<open>get_prop (ajax_options (put E cls u (JObj [(''a'', JNum 1)]) (JObj ps))) ''data'' = JStr ''{"a":1}''\<close>
    unfolding put_def using request_json(1) [OF o, of "JObj [(''a'', JNum 1)]" E cls u] JSON_a1 by simp
  show "get_prop (ajax_options (put E cls u (JObj [(''a'', JNum 1)]) (JObj ps))) ''contentType'' = JStr ''application/json''"
    unfolding put_def using request_json(2) [OF o, of "JObj [(''a'', JNum 1)]" E cls u] by simp
  show "get_prop (ajax_options (put E cls u (JObj [(''a'', JNum 1)]) (JObj ps))) ''processData'' = JBool False"
    unfolding put_def using request_json(3) [OF o, of "JObj [(''a'', JNum 1)]" E cls u] by simp
  have plain: "get_prop (ajax_options (request E cls u (JObj [(''a'', JNum 1)]) (defaults (js_or (JObj ps) (JObj [])) (JObj [(''type'', JStr verb)])))) ''data'' = JObj [(''a'', JNum 1)] \<and>
         get_prop (ajax_options (request E cls u (JObj [(''a'', JNum 1)]) (defaults (js_or (JObj ps) (JObj [])) (JObj [(''type'', JStr verb)])))) ''jsonBody'' = JUndefined \<and>
         get_prop (ajax_options (request E cls u (JObj [(''a'', JNum 1)]) (defaults (js_or (JObj ps) (JObj [])) (JObj [(''type'', JStr verb)])))) ''contentType'' = get_prop (JObj ps) ''contentType'' \<and>
         get_prop (ajax_options (request E cls u (JObj [(''a'', JNum 1)]) (defaults (js_or (JObj ps) (JObj [])) (JObj [(''type'', JStr verb)])))) ''processData'' = get_prop (JObj ps) ''processData''" for verb
  proof -
    let ?p = "defaults (js_or (JObj ps) (JObj [])) (JObj [(''type'', JStr verb)])"
    have p: "is_object ?p" "\<not> truthy (get_prop ?p ''jsonBody'')" "get_prop ?p ''data'' = JUndefined"
      using h by (auto simp: js_or_def get_prop_set_prop map_of_assign)
    have keep: "get_prop ?p k = get_prop (JObj ps) k" if "k \<noteq> ''type''" for k
      using that by (auto simp: js_or_def get_prop_set_prop map_of_assign)
    have d: "get_prop (ajax_options (request E cls u (JObj [(''a'', JNum 1)]) ?p)) ''data'' = JObj [(''a'', JNum 1)]"
      by (rule request_plain_data [OF p]) simp
    have other: "get_prop (ajax_options (request E cls u (JObj [(''a'', JNum 1)]) ?p)) k = get_prop (JObj ps) k"
      if "k \<noteq> ''timeout''" "k \<noteq> ''data''" "k \<noteq> ''url''" "k \<noteq> ''type''" for k
      using request_plain_other [OF p(1,2) that(1,2,3)] keep [OF that(4)] by (simp only:)
    from d other [of "''jsonBody''"] other [of "''contentType''"] other [of "''processData''"] h
    show ?thesis by simp
  qed
  show "\<forall>send \<in> {get, post, del}.
         get_prop (ajax_options (send E cls u (JObj [(''a'', JNum 1)]) (JObj ps))) ''data'' = JObj [(''a'', JNum 1)] \<and>
         get_prop (ajax_options (send E cls u (JObj [(''a'', JNum 1)]) (JObj ps))) ''jsonBody'' = JUndefined \<and>
         get_prop (ajax_options (send E cls u (JObj [(''a'', JNum 1)]) (JObj ps))) ''contentType'' = get_prop (JObj ps) ''contentType'' \<and>
         get_prop (ajax_options (send E cls u (JObj [(''a'', JNum 1)]) (JObj ps))) ''processData'' = get_prop (JObj ps) ''processData''"
    using plain [of "''GET''"] plain [of "''POST''"] plain [of "''DELETE''"]
    by (simp add: get_def post_def del_def)
qed

theorem request_jsonBody_witness:
  \<open>truthy (get_prop (JObj [(''jsonBody'', JBool True)]) ''jsonBody'') \<and>
   get_prop (JObj [(''jsonBody'', JBool True)]) ''data'' = JUndefined \<and>
   get_prop (ajax_options (request example_engine BaseModel ''foo'' (JObj [(''a'', JNum 1)])
       (JObj [(''jsonBody'', JBool True)]))) ''data'' = JStr ''{"a":1}'' \<and>
   get_prop (ajax_options (request example_engine BaseModel ''foo'' (JObj [(''a'', JNum 1)])
       (JObj [(''jsonBody'', JBool True)]))) ''contentType'' = JStr ''application/json'' \<and>
   get_prop (ajax_options (request example_engine BaseModel ''foo'' (JObj [(''a'', JNum 1)])
       (JObj [(''jsonBody'', JBool True)]))) ''processData'' = JBool False \<and>
   get_prop (JObj []) ''jsonBody'' = JUndefined \<and>
   get_prop (JObj []) ''data'' = JUndefined \<and>
   get_prop (ajax_options (put example_engine BaseModel ''foo'' (JObj [(''a'', JNum 1)]) (JObj []))) ''data''
     = JStr ''{"a":1}'' \<and>
   get_prop (ajax_options (post example_engine BaseModel ''foo'' (JObj [(''a'', JNum 1)]) (JObj []))) ''data''
     = JObj [(''a'', JNum 1)] \<and>
   get_prop (ajax_options (post example_engine BaseModel ''foo'' (JObj [(''a'', JNum 1)]) (JObj []))) ''contentType''
     = JUndefined\<close>
  using request_jsonBody [of "[(''jsonBody'', JBool True)]" example_engine BaseModel "''foo''"]
    request_jsonBody [of "[]" example_engine BaseModel "''foo''"]
  by simp

text \<open>
  The claim as stated covers every request with \<open>jsonBody\<close> set and the parameters
  \<open>{a: 1}\<close>.  When the caller also gives a \<open>data\<close> option, \<open>_.defaults\<close> leaves it in
  place, and the body is the JSON text of that option, not of the parameters.
\<close>

theorem request_jsonBody_data_counterexample:
  \<open>truthy (get_prop (JObj [(''jsonBody'', JBool True), (''data'', JObj [(''b'', JNum 2)])]) ''jsonBody'') \<and>
   get_prop (ajax_options (request example_engine BaseModel ''foo'' (JObj [(''a'', JNum 1)])
       (JObj [(''jsonBody'', JBool True), (''data'', JObj [(''b'', JNum 2)])]))) ''data'' = JStr ''{"b":2}'' \<and>
   JStr ''{"b":2}'' \<noteq> JStr ''{"a":1}''\<close>
  using request_json_data [of "JObj [(''jsonBody'', JBool True), (''data'', JObj [(''b'', JNum 2)])]"
      example_engine BaseModel "''foo''" "JObj [(''a'', JNum 1)]"] JSON_b2
  by simp

section \<open>Parser registry: theorems\<close>







section \<open>Route compiler: theorems\<close>

lemma param_present_own:
  "map_of ps n = Some v \<Longrightarrow> param_present E (JObj ps) n = truthy v"
  by (simp add: param_present_def js_get_def)

lemma replace_params_error:
  "n \<in> set (named_params s) \<Longrightarrow> \<not> param_present E data n \<Longrightarrow>
   \<exists>m\<in>set (named_params s). \<not> param_present E data m \<and>
     replace_params E route args data s counter td = Inl (missing_param route m)"
proof (induction s arbitrary: counter td rule: named_params.induct)
  case 1
  then show ?case by (simp add: named_params.simps)
next
  case (2 c cs)
  show ?case
  proof (cases "if c = CHR '':'' then match_name cs else None")
    case None
    with "2.prems" have n: "n \<in> set (named_params cs)" by (simp add: named_params.simps(2))
    from "2.IH"(1) [OF None n "2.prems"(2), of counter td] obtain m where
      "m \<in> set (named_params cs)" "\<not> param_present E data m"
      "replace_params E route args data cs counter td = Inl (missing_param route m)" by blast
    with None show ?thesis
      by (auto simp: named_params.simps(2) replace_params.simps(2))
  next
    case (Some a)
    obtain name rest where a: "a = (name, rest)" by (cases a)
    show ?thesis
    proof (cases "hd name = CHR ''$''")
      case True
      with "2.prems" Some a have n: "n \<in> set (named_params rest)" by (simp add: named_params.simps(2))
      from "2.IH"(2) [OF Some a [symmetric] True n "2.prems"(2), of "counter + 1" td] obtain m where
        "m \<in> set (named_params rest)" "\<not> param_present E data m"
        "replace_params E route args data rest (counter + 1) td = Inl (missing_param route m)" by blast
      with Some a True show ?thesis
        by (auto simp: named_params.simps(2) replace_params.simps(2))
    next
      case False
      show ?thesis
      proof (cases "param_present E data name")
        case t: True
        from t "2.prems" Some a False have n: "n \<in> set (named_params rest)"
          by (auto simp: named_params.simps(2))
        from "2.IH"(3) [OF Some a [symmetric] False n "2.prems"(2), of counter "td @ [name]"] obtain m where
          "m \<in> set (named_params rest)" "\<not> param_present E data m"
          "replace_params E route args data rest counter (td @ [name]) = Inl (missing_param route m)" by blast
        with Some a False t show ?thesis
          by (auto simp: named_params.simps(2) replace_params.simps(2))
      next
        case f: False
        with Some a False show ?thesis
          by (auto simp: named_params.simps(2) replace_params.simps(2) missing_param_def)
      qed
    qed
  qed
qed

text \<open>On success the keys to delete are the named placeholders, each of them present.\<close>

lemma replace_params_toDelete:
  "replace_params E route args data s counter td = Inr (out, counter', td') \<Longrightarrow>
   td' = td @ named_params s \<and> (\<forall>m\<in>set (named_params s). param_present E data m)"
proof (induction s arbitrary: counter td out rule: named_params.induct)
  case 1
  then show ?case by (simp add: named_params.simps replace_params.simps)
next
  case (2 c cs)
  show ?case
  proof (cases "if c = CHR '':'' then match_name cs else None")
    case None
    with "2.prems" obtain out0 where
      "replace_params E route args data cs counter td = Inr (out0, counter', td')"
      by (auto simp: replace_params.simps(2) split: sum.splits)
    from "2.IH"(1) [OF None this] None show ?thesis by (simp add: named_params.simps(2))
  next
    case (Some a)
    obtain name rest where a: "a = (name, rest)" by (cases a)
    show ?thesis
    proof (cases "hd name = CHR ''$''")
      case True
      with "2.prems" Some a obtain out0 where
        "replace_params E route args data rest (counter + 1) td = Inr (out0, counter', td')"
        by (auto simp: replace_params.simps(2) split: sum.splits)
      from "2.IH"(2) [OF Some a [symmetric] True this] Some a True show ?thesis
        by (simp add: named_params.simps(2))
    next
      case False
      with "2.prems" Some a obtain out0 where t: "param_present E data name" and
        "replace_params E route args data rest counter (td @ [name]) = Inr (out0, counter', td')"
        by (auto simp: replace_params.simps(2) split: sum.splits if_splits)
      from "2.IH"(3) [OF Some a [symmetric] False this(2)] Some a False t show ?thesis
        by (simp add: named_params.simps(2))
    qed
  qed
qed

text \<open>
  With every named placeholder present the replacement goes through: its result is the
  filled template, the counter has moved by the positional placeholders, and the keys to
  delete are the named ones.
\<close>

lemma replace_params_fill:
  "\<forall>m\<in>set (named_params s). param_present E data m \<Longrightarrow>
   replace_params E route args data s counter td =
     Inr (fill E args data s counter, counter + positional_params s, td @ named_params s)"
proof (induction s arbitrary: counter td rule: named_params.induct)
  case 1
  then show ?case
    by (simp add: named_params.simps replace_params.simps fill.simps positional_params.simps)
next
  case (2 c cs)
  show ?case
  proof (cases "if c = CHR '':'' then match_name cs else None")
    case None
    with "2.prems" have "\<forall>m\<in>set (named_params cs). param_present E data m"
      by (simp add: named_params.simps(2))
    from "2.IH"(1) [OF None this, of counter td] None show ?thesis
      by (simp add: named_params.simps(2) replace_params.simps(2) fill.simps(2)
          positional_params.simps(2))
  next
    case (Some a)
    obtain name rest where a: "a = (name, rest)" by (cases a)
    show ?thesis
    proof (cases "hd name = CHR ''$''")
      case True
      with "2.prems" Some a have "\<forall>m\<in>set (named_params rest). param_present E data m"
        by (simp add: named_params.simps(2))
      from "2.IH"(2) [OF Some a [symmetric] True this, of "counter + 1" td] Some a True show ?thesis
        by (simp add: named_params.simps(2) replace_params.simps(2) fill.simps(2)
            positional_params.simps(2))
    next
      case False
      with "2.prems" Some a have t: "param_present E data name"
        and r: "\<forall>m\<in>set (named_params rest). param_present E data m"
        by (simp_all add: named_params.simps(2))
      from "2.IH"(3) [OF Some a [symmetric] False r, of counter "td @ [name]"] Some a False t
      show ?thesis
        by (simp add: named_params.simps(2) replace_params.simps(2) fill.simps(2)
            positional_params.simps(2))
    qed
  qed
qed

text \<open>Templates with one named placeholder: text without a colon around \<open>:name\<close>.\<close>

lemma no_colon:
  "CHR '':'' \<notin> set s \<Longrightarrow>
   replace_params E route args data s counter td = Inr (s, counter, td) \<and> named_params s = [] \<and>
   fill E args data s counter = s \<and> positional_params s = 0"
  by (induction s)
     (auto simp: replace_params.simps named_params.simps fill.simps positional_params.simps)

lemma replace_params_prefix:
  "CHR '':'' \<notin> set pre \<Longrightarrow>
   replace_params E route args data (pre @ s) counter td =
     (case replace_params E route args data s counter td of
        Inl e \<Rightarrow> Inl e | Inr (out, counter', td') \<Rightarrow> Inr (pre @ out, counter', td'))"
  by (induction pre) (auto simp: replace_params.simps(2) split: sum.splits)

lemma named_params_prefix:
  "CHR '':'' \<notin> set pre \<Longrightarrow> named_params (pre @ s) = named_params s"
  by (induction pre) (auto simp: named_params.simps(2))

lemma fill_prefix:
  "CHR '':'' \<notin> set pre \<Longrightarrow> fill E args data (pre @ s) counter = pre @ fill E args data s counter"
  by (induction pre) (auto simp: fill.simps(2))

lemma positional_params_prefix:
  "CHR '':'' \<notin> set pre \<Longrightarrow> positional_params (pre @ s) = positional_params s"
  by (induction pre) (auto simp: positional_params.simps(2))

lemma match_name_word:
  assumes "name \<noteq> []" and "\<forall>c\<in>set name. is_word c" and "sfx = [] \<or> \<not> is_word (hd sfx)"
  shows "match_name (name @ sfx) = Some (name, sfx)" and "hd name \<noteq> CHR ''$''"
proof -
  from assms(3) have p: "takeWhile is_word sfx = []" by (cases sfx) auto
  from assms(2) have tw: "takeWhile is_word (name @ sfx) = name"
    by (simp add: takeWhile_append2 p)
  from assms(2) have dw: "dropWhile is_word (name @ sfx) = dropWhile is_word sfx"
    by (simp add: dropWhile_append2)
  from assms(3) have dp: "dropWhile is_word sfx = sfx" by (cases sfx) auto
  from assms(1,2) show d: "hd name \<noteq> CHR ''$''"
    by (cases name) (auto simp: is_word_def is_upper_def is_lower_def is_digit_def)
  obtain c r where cr: "name @ sfx = c # r" "c = hd name" using assms(1) by (cases name) auto
  with d tw dw dp assms(1) show "match_name (name @ sfx) = Some (name, sfx)"
    unfolding match_name_def by (simp add: cr(1) [symmetric] del: append_Cons)
qed

lemma replace_params_single:
  assumes "CHR '':'' \<notin> set pre" and "CHR '':'' \<notin> set sfx"
    and "name \<noteq> []" and "\<forall>c\<in>set name. is_word c" and "sfx = [] \<or> \<not> is_word (hd sfx)"
  shows "replace_params E route args data (pre @ CHR '':'' # name @ sfx) counter td =
           (if param_present E data name
            then Inr (pre @ member_text (js_get E data name) @ sfx, counter, td @ [name])
            else Inl (missing_param route name))"
    and "named_params (pre @ CHR '':'' # name @ sfx) = [name]"
    and "fill E args data (pre @ CHR '':'' # name @ sfx) counter =
           pre @ member_text (js_get E data name) @ sfx"
    and "positional_params (pre @ CHR '':'' # name @ sfx) = 0"
proof -
  note m = match_name_word [OF assms(3,4,5)]
  have "replace_params E route args data (CHR '':'' # name @ sfx) counter td =
           (if param_present E data name
            then Inr (member_text (js_get E data name) @ sfx, counter, td @ [name])
            else Inl (missing_param route name))"
    using m no_colon [OF assms(2), of E route args data counter "td @ [name]"]
    by (auto simp: replace_params.simps(2) missing_param_def)
  then show "replace_params E route args data (pre @ CHR '':'' # name @ sfx) counter td =
           (if param_present E data name
            then Inr (pre @ member_text (js_get E data name) @ sfx, counter, td @ [name])
            else Inl (missing_param route name))"
    by (simp add: replace_params_prefix [OF assms(1)])
  show "named_params (pre @ CHR '':'' # name @ sfx) = [name]"
    using m no_colon [OF assms(2), of E route args data counter td]
    by (simp add: named_params_prefix [OF assms(1)] named_params.simps(2))
  show "fill E args data (pre @ CHR '':'' # name @ sfx) counter =
           pre @ member_text (js_get E data name) @ sfx"
    using m no_colon [OF assms(2), of E route args data counter td]
    by (simp add: fill_prefix [OF assms(1)] fill.simps(2))
  show "positional_params (pre @ CHR '':'' # name @ sfx) = 0"
    using m no_colon [OF assms(2), of E route args data counter td]
    by (simp add: positional_params_prefix [OF assms(1)] positional_params.simps(2))
qed

lemma trim_id:
  assumes "s \<noteq> []" and "\<not> is_space (hd s)" and "\<not> is_space (last s)"
  shows "trim s = s"
proof -
  from assms(1,2) have "dropWhile is_space s = s" by (cases s) auto
  then show ?thesis
    using trim_end_append [OF assms(1) assms(3), of "[]"] by (simp add: trim_def trim_end_def)
qed

lemma route_sections_two:
  assumes "m \<noteq> []" and "\<forall>c\<in>set m. \<not> is_space c" and "w \<noteq> []" and "\<forall>c\<in>set w. \<not> is_space c"
  shows "route_sections (m @ CHR '' '' # w) = [m, w]"
proof -
  from assms have "\<not> is_space (hd (m @ CHR '' '' # w))" and "\<not> is_space (last (m @ CHR '' '' # w))"
    by auto
  then have t: "trim (m @ CHR '' '' # w) = m @ CHR '' '' # w"
    by (intro trim_id) auto
  have sp: "is_space CHR '' ''" by (simp add: is_space_def)
  have "split_go (m @ CHR '' '' # w) [] False = split_go (CHR '' '' # w) (rev m @ []) False"
    by (rule split_go_token [OF assms(2,1)])
  also have "\<dots> = m # split_go (w @ []) [] True" using sp by simp
  also have "split_go (w @ []) [] True = split_go [] (rev w @ []) False"
    by (rule split_go_token [OF assms(4,3)])
  finally show ?thesis by (simp add: route_sections_def split_ws_def t)
qed

lemma createMethod_plain:
  assumes "m \<noteq> []" and "\<forall>c\<in>set m. \<not> is_space c" and "w \<noteq> []" and "\<forall>c\<in>set w. \<not> is_space c"
    and "toLowerCase m \<noteq> ''crud''"
  shows "createMethod cc (JStr fn) (m @ CHR '' '' # w) routes =
     Inr (assign routes fn
           \<lparr>rf_method = (if toLowerCase m = ''delete'' then ''del'' else toLowerCase m),
            rf_uri = w, rf_route = m @ CHR '' '' # w, rf_options = JNull\<rparr>)"
  using assms
  by (simp add: createMethod.simps createMethod_body.simps route_method_verb route_uri_def
      route_sections_two)

lemma createMethod_body_crud:
  assumes "u \<noteq> []" and "\<forall>c\<in>set u. \<not> is_space c"
  shows "createMethod_body cc fn options (''CRUD '' @ u) routes =
           Inr (assign_all routes (crud_routes (cc fn) u))"
proof -
  have nsp: "\<not> is_space CHR ''/''" "\<not> is_space CHR '':''" "\<not> is_space CHR ''$''" "\<not> is_space CHR ''0''"
    "\<not> is_space CHR ''i''" "\<not> is_space CHR ''d''"
    by (simp_all add: is_space_def)
  have verbs: "\<forall>c\<in>set ''POST''. \<not> is_space c" "\<forall>c\<in>set ''GET''. \<not> is_space c"
    "\<forall>c\<in>set ''PUT''. \<not> is_space c" "\<forall>c\<in>set ''DEL''. \<not> is_space c" "\<forall>c\<in>set ''CRUD''. \<not> is_space c"
    by (simp_all add: is_space_def)
  have lower: "toLowerCase ''POST'' = ''post''" "toLowerCase ''GET'' = ''get''"
    "toLowerCase ''PUT'' = ''put''" "toLowerCase ''DEL'' = ''del''" "toLowerCase ''CRUD'' = ''crud''"
    by (simp_all add: toLowerCase_def lower_char_def)
  have crud: "route_method (''CRUD '' @ u) = ''crud''"
    using route_method_verb [of "''CRUD''" u] verbs lower by simp
  have uri: "route_uri (''CRUD '' @ u) = u"
    using route_sections_two [of "''CRUD''" u] verbs assms by (simp add: route_uri_def)
  have p1: "createMethod cc (JStr k) (''POST '' @ u) r =
      Inr (assign r k \<lparr>rf_method = ''post'', rf_uri = u, rf_route = ''POST '' @ u, rf_options = JNull\<rparr>)" for k r
    using createMethod_plain [of "''POST''" u cc k r] verbs lower assms by simp
  have p2: "createMethod cc (JStr k) (''GET '' @ u @ ''/:$0'') r =
      Inr (assign r k \<lparr>rf_method = ''get'', rf_uri = u @ ''/:$0'', rf_route = ''GET '' @ u @ ''/:$0'', rf_options = JNull\<rparr>)" for k r
    using createMethod_plain [of "''GET''" "u @ ''/:$0''" cc k r] verbs lower assms nsp by simp
  have p3: "createMethod cc (JStr k) (''PUT '' @ u @ ''/:id'') r =
      Inr (assign r k \<lparr>rf_method = ''put'', rf_uri = u @ ''/:id'', rf_route = ''PUT '' @ u @ ''/:id'', rf_options = JNull\<rparr>)" for k r
    using createMethod_plain [of "''PUT''" "u @ ''/:id''" cc k r] verbs lower assms nsp by simp
  have p4: "createMethod cc (JStr k) (''DEL '' @ u @ ''/:id'') r =
      Inr (assign r k \<lparr>rf_method = ''del'', rf_uri = u @ ''/:id'', rf_route = ''DEL '' @ u @ ''/:id'', rf_options = JNull\<rparr>)" for k r
    using createMethod_plain [of "''DEL''" "u @ ''/:id''" cc k r] verbs lower assms nsp by simp
  have n: "newRoute ''POST'' u = ''POST '' @ u" "newRoute ''GET'' u = ''GET '' @ u @ ''/:$0''"
    "newRoute ''PUT'' u = ''PUT '' @ u @ ''/:id''" "newRoute ''DEL'' u = ''DEL '' @ u @ ''/:id''"
    by (simp_all add: newRoute_def)
  have "createMethod_body cc fn options (''CRUD '' @ u) routes =
      Inr (assign (assign (assign (assign routes
        (''requestCreate'' @ cc fn)
          \<lparr>rf_method = ''post'', rf_uri = u, rf_route = ''POST '' @ u, rf_options = JNull\<rparr>)
        (''requestOne'' @ cc fn)
          \<lparr>rf_method = ''get'', rf_uri = u @ ''/:$0'', rf_route = ''GET '' @ u @ ''/:$0'', rf_options = JNull\<rparr>)
        (''requestUpdate'' @ cc fn)
          \<lparr>rf_method = ''put'', rf_uri = u @ ''/:id'', rf_route = ''PUT '' @ u @ ''/:id'', rf_options = JNull\<rparr>)
        (''requestDelete'' @ cc fn)
          \<lparr>rf_method = ''del'', rf_uri = u @ ''/:id'', rf_route = ''DEL '' @ u @ ''/:id'', rf_options = JNull\<rparr>)"
    unfolding createMethod_body.simps [of cc fn options "''CRUD '' @ u" routes] crud uri n crudMethods_def
    by (simp only: p1 p2 p3 p4 if_True sum.case list.inject char.inject simp_thms if_False)
  then show ?thesis
    by (simp only: assign_all_def crud_routes_def foldl.simps fst_conv snd_conv)
qed

lemma crud_routes_keys:
  shows "map fst (crud_routes N u) =
     [''requestCreate'' @ N, ''requestOne'' @ N, ''requestUpdate'' @ N, ''requestDelete'' @ N]"
  and "distinct (map fst (crud_routes N u))"
  and "assign_all [] (crud_routes N u) = crud_routes N u"
  by (simp_all add: crud_routes_def assign_all_def)

text \<open>
  C3 (as amended).  A \<open>CRUD\<close> entry generates exactly four methods and none for itself:
  \<open>requestCreate\<close>, \<open>requestOne\<close>, \<open>requestUpdate\<close> and \<open>requestDelete\<close>, each followed
  by \<open>Name\<close>, bound to \<open>POST name\<close>, \<open>GET name/:$0\<close>, \<open>PUT name/:id\<close> and
  \<open>DEL name/:id\<close> (\<open>del\<close> being the method that sends \<open>DELETE\<close>).  Here \<open>name\<close> is the path
  written after \<open>CRUD\<close>, and \<open>Name\<close> is the camel-cased form of the entry's value, the
  method name given as a string or as the \<open>fn\<close> of an options object, not of the path.
  In a table that already has entries the four are assigned in this order.
\<close>

theorem createMethod_crud:
  assumes "u \<noteq> []" and "\<forall>c\<in>set u. \<not> is_space c"
  shows "createModelRequestMethods cc [(''CRUD '' @ u, JStr name)] = Inr (crud_routes (cc (JStr name)) u) \<and>
         createModelRequestMethods cc [(''CRUD '' @ u, JObj ps)] = Inr (crud_routes (cc (get_prop (JObj ps) ''fn'')) u) \<and>
         createMethod cc (JStr name) (''CRUD '' @ u) routes = Inr (assign_all routes (crud_routes (cc (JStr name)) u)) \<and>
         map fst (crud_routes (cc (JStr name)) u) =
           [''requestCreate'' @ cc (JStr name), ''requestOne'' @ cc (JStr name),
            ''requestUpdate'' @ cc (JStr name), ''requestDelete'' @ cc (JStr name)] \<and>
         distinct (map fst (crud_routes (cc (JStr name)) u))"
proof -
  have body: "createMethod cc options (''CRUD '' @ u) r =
      Inr (assign_all r (crud_routes (cc (case options of JStr s \<Rightarrow> options | other \<Rightarrow> get_prop options ''fn'')) u))"
    if "options = JStr s \<or> options = JObj qs" for options s qs r
    using that createMethod_body_crud [OF assms]
    by (auto simp only: createMethod.simps jsval.case)
  have each: "createModelRequestMethods cc [(''CRUD '' @ u, options)] =
      createMethod cc options (''CRUD '' @ u) []" for options
    by (simp add: createModelRequestMethods_def split: sum.splits)
  have a: "createModelRequestMethods cc [(''CRUD '' @ u, JStr name)] = Inr (crud_routes (cc (JStr name)) u)"
    using body [of "JStr name" name _ "[]"] by (simp only: each crud_routes_keys(3) jsval.case simp_thms)
  have b: "createModelRequestMethods cc [(''CRUD '' @ u, JObj ps)] = Inr (crud_routes (cc (get_prop (JObj ps) ''fn'')) u)"
    using body [of "JObj ps" _ ps "[]"] by (simp only: each crud_routes_keys(3) jsval.case simp_thms)
  have c: "createMethod cc (JStr name) (''CRUD '' @ u) routes = Inr (assign_all routes (crud_routes (cc (JStr name)) u))"
    using body [of "JStr name" name _ routes] by (simp only: jsval.case simp_thms)
  from a b c crud_routes_keys(1,2) [of "cc (JStr name)" u] show ?thesis by blast
qed

theorem createMethod_crud_witness:
  "createModelRequestMethods camelCase [(''CRUD widget'', JStr ''widget'')] =
     Inr [(''requestCreateWidget'',
             \<lparr>rf_method = ''post'', rf_uri = ''widget'', rf_route = ''POST widget'', rf_options = JNull\<rparr>),
          (''requestOneWidget'',
             \<lparr>rf_method = ''get'', rf_uri = ''widget/:$0'', rf_route = ''GET widget/:$0'', rf_options = JNull\<rparr>),
          (''requestUpdateWidget'',
             \<lparr>rf_method = ''put'', rf_uri = ''widget/:id'', rf_route = ''PUT widget/:id'', rf_options = JNull\<rparr>),
          (''requestDeleteWidget'',
             \<lparr>rf_method = ''del'', rf_uri = ''widget/:id'', rf_route = ''DEL widget/:id'', rf_options = JNull\<rparr>)]"
  using createMethod_crud [of "''widget''" camelCase "''widget''"]
  by (simp add: is_space_def crud_routes_def camelCase_def upper_char_def)

text \<open>
  The claim as stated takes \<open>Name\<close> from the \<open>name\<close> of the \<open>CRUD name\<close> entry.  For the
  entry \<open>'CRUD widget': 'Gadget'\<close> the four methods end in \<open>Gadget\<close>, and none is called
  \<open>requestCreateWidget\<close>, though \<open>Widget\<close> is the camel-cased form of \<open>widget\<close>.
\<close>

theorem crud_name_counterexample:
  "createModelRequestMethods camelCase [(''CRUD widget'', JStr ''Gadget'')] =
     Inr [(''requestCreateGadget'',
             \<lparr>rf_method = ''post'', rf_uri = ''widget'', rf_route = ''POST widget'', rf_options = JNull\<rparr>),
          (''requestOneGadget'',
             \<lparr>rf_method = ''get'', rf_uri = ''widget/:$0'', rf_route = ''GET widget/:$0'', rf_options = JNull\<rparr>),
          (''requestUpdateGadget'',
             \<lparr>rf_method = ''put'', rf_uri = ''widget/:id'', rf_route = ''PUT widget/:id'', rf_options = JNull\<rparr>),
          (''requestDeleteGadget'',
             \<lparr>rf_method = ''del'', rf_uri = ''widget/:id'', rf_route = ''DEL widget/:id'', rf_options = JNull\<rparr>)] \<and>
   camelCase (JStr ''widget'') = ''Widget'' \<and>
   ''requestCreate'' @ camelCase (JStr ''widget'') \<notin>
     set [''requestCreateGadget'', ''requestOneGadget'', ''requestUpdateGadget'', ''requestDeleteGadget'']"
  using createMethod_body_crud [of "''widget''" camelCase "JStr ''Gadget''" JNull "[]"]
  by (simp add: createModelRequestMethods_def createMethod.simps is_space_def crud_routes_def
      assign_all_def camelCase_def upper_char_def)

lemma get_prop_foldl_delete:
  "get_prop (foldl delete_prop d ks) k = (if k \<in> set ks then JUndefined else get_prop d k)"
  by (induction ks arbitrary: d) (auto simp: get_prop_delete_prop)

lemma param_present_truthy: "param_present E data n \<Longrightarrow> js_or data (JObj []) = data"
  by (simp add: param_present_def js_or_def)

text \<open>
  Whatever the template: a call that goes through is a call of the route's method, every
  named placeholder was present in the parameters, and the body handed on has none of the
  placeholders' keys.
\<close>

lemma route_call_removes_keys:
  assumes "route_call E rf args = Inr (MethodCall m u body opts)"
  shows "m = rf_method rf"
    and "\<forall>n\<in>set (named_params (rf_uri rf)).
           param_present E (arg_at args 0) n \<and> get_prop body n = JUndefined"
proof -
  from assms obtain out counter td where
    r: "replace_params E (rf_route rf) args (arg_at args 0) (rf_uri rf) 0 [] = Inr (out, counter, td)"
    by (auto simp: route_call_def split: sum.splits)
  from replace_params_toDelete [OF r] have td: "td = named_params (rf_uri rf)"
    and t: "\<forall>n\<in>set (named_params (rf_uri rf)). param_present E (arg_at args 0) n"
    by simp_all
  from assms r show "m = rf_method rf"
    by (simp add: route_call_def Let_def)
  from assms r have "body = foldl delete_prop (js_or (arg_at args counter) (JObj [])) td"
    by (simp add: route_call_def Let_def)
  with td t show "\<forall>n\<in>set (named_params (rf_uri rf)).
           param_present E (arg_at args 0) n \<and> get_prop body n = JUndefined"
    by (simp add: get_prop_foldl_delete)
qed

text \<open>
  C4 (as amended).  A named placeholder \<open>:name\<close> is present when the guard
  \<open>params && params[name]\<close> holds, that is when \<open>params[name]\<close>, own or inherited, is
  truthy.  Called with every named placeholder of the template present, the generated
  function calls the verb's method with the URI in which every placeholder is replaced by
  the string of its value, and with a body from which the keys of the named placeholders have
  been deleted (the other keys stay).  Called with a named placeholder that is not present,
  missing or falsy, it throws the error that names the route and such a placeholder.  For a
  template with the one placeholder \<open>:name\<close> this reads: the URI is the template with
  \<open>:name\<close> replaced by the string of \<open>params[name]\<close>, the body is the parameters
  without \<open>name\<close>.
\<close>

theorem route_call_named:
  "((\<forall>n\<in>set (named_params (rf_uri rf)). param_present E (arg_at args 0) n) \<longrightarrow>
      route_call E rf args =
        Inr (MethodCall (rf_method rf) (fill E args (arg_at args 0) (rf_uri rf) 0)
               (foldl delete_prop (js_or (arg_at args (positional_params (rf_uri rf))) (JObj []))
                  (named_params (rf_uri rf)))
               (if truthy (rf_options rf)
                then defaults (js_or (arg_at args (positional_params (rf_uri rf) + 1)) (JObj [])) (rf_options rf)
                else js_or (arg_at args (positional_params (rf_uri rf) + 1)) (JObj []))) \<and>
      (\<forall>k. get_prop (foldl delete_prop (js_or (arg_at args (positional_params (rf_uri rf))) (JObj []))
                       (named_params (rf_uri rf))) k =
             (if k \<in> set (named_params (rf_uri rf)) then JUndefined
              else get_prop (js_or (arg_at args (positional_params (rf_uri rf))) (JObj [])) k))) \<and>
   ((\<exists>n\<in>set (named_params (rf_uri rf)). \<not> param_present E (arg_at args 0) n) \<longrightarrow>
      (\<exists>m\<in>set (named_params (rf_uri rf)).
          \<not> param_present E (arg_at args 0) m \<and>
          route_call E rf args = Inl (missing_param (rf_route rf) m))) \<and>
   (rf_uri rf = pre @ CHR '':'' # name @ sfx \<and> CHR '':'' \<notin> set pre \<and> CHR '':'' \<notin> set sfx \<and>
    name \<noteq> [] \<and> (\<forall>c\<in>set name. is_word c) \<and> (sfx = [] \<or> \<not> is_word (hd sfx)) \<longrightarrow>
      (param_present E (arg_at args 0) name \<longrightarrow>
         route_call E rf args =
           Inr (MethodCall (rf_method rf) (pre @ member_text (js_get E (arg_at args 0) name) @ sfx)
                  (delete_prop (arg_at args 0) name)
                  (if truthy (rf_options rf)
                   then defaults (js_or (arg_at args 1) (JObj [])) (rf_options rf)
                   else js_or (arg_at args 1) (JObj [])))) \<and>
      (\<not> param_present E (arg_at args 0) name \<longrightarrow>
         route_call E rf args = Inl (missing_param (rf_route rf) name)))"
proof (intro conjI impI)
  assume all: "\<forall>n\<in>set (named_params (rf_uri rf)). param_present E (arg_at args 0) n"
  from replace_params_fill [OF all, of "rf_route rf" args 0 "[]"]
  show "route_call E rf args =
        Inr (MethodCall (rf_method rf) (fill E args (arg_at args 0) (rf_uri rf) 0)
               (foldl delete_prop (js_or (arg_at args (positional_params (rf_uri rf))) (JObj []))
                  (named_params (rf_uri rf)))
               (if truthy (rf_options rf)
                then defaults (js_or (arg_at args (positional_params (rf_uri rf) + 1)) (JObj [])) (rf_options rf)
                else js_or (arg_at args (positional_params (rf_uri rf) + 1)) (JObj [])))"
    by (simp add: route_call_def Let_def)
  show "\<forall>k. get_prop (foldl delete_prop (js_or (arg_at args (positional_params (rf_uri rf))) (JObj []))
                       (named_params (rf_uri rf))) k =
             (if k \<in> set (named_params (rf_uri rf)) then JUndefined
              else get_prop (js_or (arg_at args (positional_params (rf_uri rf))) (JObj [])) k)"
    by (simp add: get_prop_foldl_delete)
next
  assume "\<exists>n\<in>set (named_params (rf_uri rf)). \<not> param_present E (arg_at args 0) n"
  then obtain n where "n \<in> set (named_params (rf_uri rf))" "\<not> param_present E (arg_at args 0) n"
    by blast
  from replace_params_error [OF this, of "rf_route rf" args 0 "[]"]
  show "\<exists>m\<in>set (named_params (rf_uri rf)).
          \<not> param_present E (arg_at args 0) m \<and>
          route_call E rf args = Inl (missing_param (rf_route rf) m)"
    by (auto simp: route_call_def)
next
  assume shape: "rf_uri rf = pre @ CHR '':'' # name @ sfx \<and> CHR '':'' \<notin> set pre \<and> CHR '':'' \<notin> set sfx \<and>
    name \<noteq> [] \<and> (\<forall>c\<in>set name. is_word c) \<and> (sfx = [] \<or> \<not> is_word (hd sfx))"
  then have s: "CHR '':'' \<notin> set pre" "CHR '':'' \<notin> set sfx" "name \<noteq> []" "\<forall>c\<in>set name. is_word c"
    "sfx = [] \<or> \<not> is_word (hd sfx)" and u: "rf_uri rf = pre @ CHR '':'' # name @ sfx"
    by simp_all
  have r: "replace_params E (rf_route rf) args (arg_at args 0) (rf_uri rf) 0 [] =
           (if param_present E (arg_at args 0) name
            then Inr (pre @ member_text (js_get E (arg_at args 0) name) @ sfx, 0, [name])
            else Inl (missing_param (rf_route rf) name))"
    using replace_params_single(1) [OF s, of E "rf_route rf" args "arg_at args 0" 0 "[]"]
    by (simp add: u)
  {
    assume p: "param_present E (arg_at args 0) name"
    with r param_present_truthy [OF p]
    show "route_call E rf args =
           Inr (MethodCall (rf_method rf) (pre @ member_text (js_get E (arg_at args 0) name) @ sfx)
                  (delete_prop (arg_at args 0) name)
                  (if truthy (rf_options rf)
                   then defaults (js_or (arg_at args 1) (JObj [])) (rf_options rf)
                   else js_or (arg_at args 1) (JObj [])))"
      by (simp add: route_call_def Let_def)
  }
  {
    assume "\<not> param_present E (arg_at args 0) name"
    with r show "route_call E rf args = Inl (missing_param (rf_route rf) name)"
      by (simp add: route_call_def)
  }
qed

lemma foo_id_compiled:
  "createModelRequestMethods cc [(''GET foo/:id'', JStr ''requestFoo'')] =
     Inr [(''requestFoo'',
           \<lparr>rf_method = ''get'', rf_uri = ''foo/:id'', rf_route = ''GET foo/:id'', rf_options = JNull\<rparr>)]"
  using createMethod_plain [of "''GET''" "''foo/:id''" cc "''requestFoo''" "[]"]
  by (simp add: createModelRequestMethods_def is_space_def toLowerCase_def lower_char_def)

lemma id_is_word: "\<forall>c\<in>set ''id''. is_word c"
  by (simp add: is_word_def is_lower_def)

lemma constructor_is_word: "\<forall>c\<in>set ''constructor''. is_word c"
  by (simp add: is_word_def is_lower_def)

lemma BaseModel_get_foo5:
  "dispatch E BaseModel (MethodCall ''get'' ''foo/5'' (JObj []) (JObj [])) =
     Some \<lparr>ajax_options = JObj [(''type'', JStr ''GET''), (''data'', JObj []), (''url'', JStr ''/foo/5'')],
           ajax_timeout = Some (Finite 30000)\<rparr>"
  by (simp add: dispatch_def get_def request_def js_or_def getAjaxTimeout_def BaseModel_def Let_def)

theorem route_call_named_witness:
  "createModelRequestMethods camelCase [(''GET foo/:id'', JStr ''requestFoo'')] =
     Inr [(''requestFoo'',
           \<lparr>rf_method = ''get'', rf_uri = ''foo/:id'', rf_route = ''GET foo/:id'', rf_options = JNull\<rparr>)] \<and>
   param_present example_engine (JObj [(''id'', JNum 5)]) ''id'' \<and>
   route_call example_engine
       \<lparr>rf_method = ''get'', rf_uri = ''foo/:id'', rf_route = ''GET foo/:id'', rf_options = JNull\<rparr>
       [JObj [(''id'', JNum 5)]]
     = Inr (MethodCall ''get'' ''foo/5'' (JObj []) (JObj [])) \<and>
   dispatch example_engine BaseModel (MethodCall ''get'' ''foo/5'' (JObj []) (JObj [])) =
     Some \<lparr>ajax_options = JObj [(''type'', JStr ''GET''), (''data'', JObj []), (''url'', JStr ''/foo/5'')],
           ajax_timeout = Some (Finite 30000)\<rparr> \<and>
   \<not> param_present example_engine (JObj []) ''id'' \<and>
   route_call example_engine
       \<lparr>rf_method = ''get'', rf_uri = ''foo/:id'', rf_route = ''GET foo/:id'', rf_options = JNull\<rparr>
       [JObj []]
     = Inl (Error ''The route GET foo/:id must include id in your params'') \<and>
   param_present example_engine (JObj []) ''constructor'' \<and>
   route_call example_engine
       \<lparr>rf_method = ''get'', rf_uri = ''foo/:constructor'', rf_route = ''GET foo/:constructor'',
         rf_options = JNull\<rparr>
       [JObj []]
     = Inr (MethodCall ''get'' ''foo/function Object() { [native code] }'' (JObj []) (JObj [])) \<and>
   named_params ''users/:uid/posts/:pid'' = [''uid'', ''pid''] \<and>
   route_call example_engine
       \<lparr>rf_method = ''get'', rf_uri = ''users/:uid/posts/:pid'', rf_route = ''GET users/:uid/posts/:pid'',
         rf_options = JNull\<rparr>
       [JObj [(''uid'', JNum 7), (''pid'', JNum 9), (''q'', JStr ''x'')]]
     = Inr (MethodCall ''get'' ''users/7/posts/9'' (JObj [(''q'', JStr ''x'')]) (JObj []))"
proof -
  let ?rf = "\<lparr>rf_method = ''get'', rf_uri = ''foo/:id'', rf_route = ''GET foo/:id'', rf_options = JNull\<rparr>"
  let ?rc = "\<lparr>rf_method = ''get'', rf_uri = ''foo/:constructor'', rf_route = ''GET foo/:constructor'',
         rf_options = JNull\<rparr>"
  have shape: "rf_uri ?rf = ''foo/'' @ CHR '':'' # ''id'' @ [] \<and> CHR '':'' \<notin> set ''foo/'' \<and>
      CHR '':'' \<notin> set [] \<and> ''id'' \<noteq> [] \<and> (\<forall>c\<in>set ''id''. is_word c) \<and> ([] = [] \<or> \<not> is_word (hd []))"
    using id_is_word by simp
  have shapec: "rf_uri ?rc = ''foo/'' @ CHR '':'' # ''constructor'' @ [] \<and> CHR '':'' \<notin> set ''foo/'' \<and>
      CHR '':'' \<notin> set [] \<and> ''constructor'' \<noteq> [] \<and> (\<forall>c\<in>set ''constructor''. is_word c) \<and>
      ([] = [] \<or> \<not> is_word (hd []))"
    using constructor_is_word by simp
  have p5: "param_present example_engine (JObj [(''id'', JNum 5)]) ''id''"
    by (simp add: param_present_def js_get_def)
  have p0: "\<not> param_present example_engine (JObj []) ''id''"
    by (simp add: param_present_def js_get_def example_engine_def)
  have pc: "param_present example_engine (JObj []) ''constructor''"
    by (simp add: param_present_def js_get_def example_engine_def)
  have t5: "member_text (js_get example_engine (JObj [(''id'', JNum 5)]) ''id'') = ''5''"
    by (simp add: js_get_def string_of_int_def string_of_nat.simps digit_char_def)
  have tc: "member_text (js_get example_engine (JObj []) ''constructor'') =
      ''function Object() { [native code] }''"
    by (simp add: js_get_def example_engine_def)
  have five: "route_call example_engine ?rf [JObj [(''id'', JNum 5)]] =
      Inr (MethodCall ''get'' ''foo/5'' (JObj []) (JObj []))"
    using route_call_named [of ?rf example_engine "[JObj [(''id'', JNum 5)]]" "''foo/''" "''id''" "[]"]
      shape p5 t5
    by (simp add: arg_at_def js_or_def)
  have none: "route_call example_engine ?rf [JObj []] =
      Inl (Error ''The route GET foo/:id must include id in your params'')"
    using route_call_named [of ?rf example_engine "[JObj []]" "''foo/''" "''id''" "[]"] shape p0
    by (simp add: arg_at_def missing_param_def)
  have ctor: "route_call example_engine ?rc [JObj []] =
      Inr (MethodCall ''get'' ''foo/function Object() { [native code] }'' (JObj []) (JObj []))"
    using route_call_named [of ?rc example_engine "[JObj []]" "''foo/''" "''constructor''" "[]"]
      shapec pc tc
    by (simp add: arg_at_def js_or_def)
  let ?ru = "\<lparr>rf_method = ''get'', rf_uri = ''users/:uid/posts/:pid'',
         rf_route = ''GET users/:uid/posts/:pid'', rf_options = JNull\<rparr>"
  let ?pu = "JObj [(''uid'', JNum 7), (''pid'', JNum 9), (''q'', JStr ''x'')]"
  have names: "named_params ''users/:uid/posts/:pid'' = [''uid'', ''pid'']"
    by (simp add: named_params.simps match_name_def is_word_def is_upper_def is_lower_def is_digit_def)
  have pos: "positional_params ''users/:uid/posts/:pid'' = 0"
    by (simp add: positional_params.simps match_name_def is_word_def is_upper_def is_lower_def
        is_digit_def)
  have filled: "fill example_engine [?pu] ?pu ''users/:uid/posts/:pid'' 0 = ''users/7/posts/9''"
    by (simp add: fill.simps match_name_def is_word_def is_upper_def is_lower_def is_digit_def
        js_get_def string_of_int_def string_of_nat.simps digit_char_def)
  have pu: "param_present example_engine ?pu ''uid''" "param_present example_engine ?pu ''pid''"
    by (simp_all add: param_present_def js_get_def)
  have users: "route_call example_engine ?ru [?pu] =
      Inr (MethodCall ''get'' ''users/7/posts/9'' (JObj [(''q'', JStr ''x'')]) (JObj []))"
    using route_call_named [of ?ru example_engine "[?pu]"] names pos filled pu
    by (simp add: arg_at_def js_or_def)
  from five none ctor p5 p0 pc BaseModel_get_foo5 [of example_engine] foo_id_compiled [of camelCase]
    names users
  show ?thesis by simp
qed

text \<open>
  The claim as stated covers every parameter mapping that contains the key.  \<open>{id: 0}\<close>
  contains \<open>id\<close>, and the call throws.
\<close>

theorem route_call_zero_counterexample:
  "map_of [(''id'', JNum 0)] ''id'' = Some (JNum 0) \<and>
   route_call example_engine
       \<lparr>rf_method = ''get'', rf_uri = ''foo/:id'', rf_route = ''GET foo/:id'', rf_options = JNull\<rparr>
       [JObj [(''id'', JNum 0)]]
     = Inl (Error ''The route GET foo/:id must include id in your params'')"
proof -
  have "\<not> param_present example_engine (JObj [(''id'', JNum 0)]) ''id''"
    by (simp add: param_present_def js_get_def)
  then have "replace_params example_engine ''GET foo/:id'' [JObj [(''id'', JNum 0)]] (JObj [(''id'', JNum 0)])
          (''foo/'' @ CHR '':'' # ''id'' @ []) 0 [] = Inl (missing_param ''GET foo/:id'' ''id'')"
    by (subst replace_params_single(1)) (simp_all add: id_is_word)
  then show ?thesis by (simp add: route_call_def arg_at_def missing_param_def)
qed

text \<open>
  C10.  Whether a named placeholder is taken as present is decided by the truthiness of
  its value in the parameters, not by the key being there: a key of the parameters counts
  as present exactly when its value is truthy.  If some named placeholder of the template
  is not present (a value that is \<open>0\<close>, the empty string, \<open>null\<close>, \<open>false\<close>, or missing),
  the call throws the missing-parameter error for such a placeholder and nothing is
  substituted or sent; if every named placeholder is present, the call goes through.
\<close>

theorem route_call_falsy_param:
  "((\<exists>n\<in>set (named_params (rf_uri rf)). \<not> param_present E (arg_at args 0) n) \<longrightarrow>
      (\<exists>m\<in>set (named_params (rf_uri rf)).
          \<not> param_present E (arg_at args 0) m \<and>
          route_call E rf args = Inl (missing_param (rf_route rf) m))) \<and>
   ((\<forall>n\<in>set (named_params (rf_uri rf)). param_present E (arg_at args 0) n) \<longrightarrow>
      (\<exists>call. route_call E rf args = Inr call)) \<and>
   (map_of ps k = Some v \<longrightarrow> param_present E (JObj ps) k = truthy v)"
proof (intro conjI impI)
  assume "\<exists>n\<in>set (named_params (rf_uri rf)). \<not> param_present E (arg_at args 0) n"
  then obtain n where "n \<in> set (named_params (rf_uri rf))" "\<not> param_present E (arg_at args 0) n"
    by blast
  from replace_params_error [OF this, of "rf_route rf" args 0 "[]"]
  show "\<exists>m\<in>set (named_params (rf_uri rf)).
          \<not> param_present E (arg_at args 0) m \<and>
          route_call E rf args = Inl (missing_param (rf_route rf) m)"
    by (auto simp: route_call_def)
next
  assume "\<forall>n\<in>set (named_params (rf_uri rf)). param_present E (arg_at args 0) n"
  from replace_params_fill [OF this, of "rf_route rf" args 0 "[]"]
  show "\<exists>call. route_call E rf args = Inr call"
    by (simp add: route_call_def Let_def)
next
  assume "map_of ps k = Some v"
  then show "param_present E (JObj ps) k = truthy v" by (rule param_present_own)
qed

theorem route_call_falsy_param_witness:
  "named_params ''foo/:id'' = [''id''] \<and>
   \<not> param_present example_engine (arg_at [JObj [(''id'', JNum 0)]] 0) ''id'' \<and>
   route_call example_engine
       \<lparr>rf_method = ''get'', rf_uri = ''foo/:id'', rf_route = ''GET foo/:id'', rf_options = JNull\<rparr>
       [JObj [(''id'', JNum 0)]] = Inl (missing_param ''GET foo/:id'' ''id'') \<and>
   \<not> param_present example_engine (arg_at [JObj [(''id'', JStr [])]] 0) ''id'' \<and>
   route_call example_engine
       \<lparr>rf_method = ''get'', rf_uri = ''foo/:id'', rf_route = ''GET foo/:id'', rf_options = JNull\<rparr>
       [JObj [(''id'', JStr [])]] = Inl (missing_param ''GET foo/:id'' ''id'') \<and>
   \<not> param_present example_engine (arg_at [JObj [(''id'', JNull)]] 0) ''id'' \<and>
   route_call example_engine
       \<lparr>rf_method = ''get'', rf_uri = ''foo/:id'', rf_route = ''GET foo/:id'', rf_options = JNull\<rparr>
       [JObj [(''id'', JNull)]] = Inl (missing_param ''GET foo/:id'' ''id'') \<and>
   param_present example_engine (arg_at [JObj [(''id'', JStr ''0'')]] 0) ''id'' \<and>
   (\<exists>call. route_call example_engine
       \<lparr>rf_method = ''get'', rf_uri = ''foo/:id'', rf_route = ''GET foo/:id'', rf_options = JNull\<rparr>
       [JObj [(''id'', JStr ''0'')]] = Inr call)"
proof -
  let ?rf = "\<lparr>rf_method = ''get'', rf_uri = ''foo/:id'', rf_route = ''GET foo/:id'', rf_options = JNull\<rparr>"
  have "named_params (''foo/'' @ CHR '':'' # ''id'' @ []) = [''id'']"
    by (rule replace_params_single(2)) (simp_all add: id_is_word)
  then have names: "named_params ''foo/:id'' = [''id'']" by simp
  have pres: "param_present example_engine (JObj [(''id'', v)]) ''id'' = truthy v" for v
    using route_call_falsy_param [of ?rf example_engine "[]" "[(''id'', v)]" "''id''" v] by simp
  have falsy: "route_call example_engine ?rf [JObj [(''id'', v)]] = Inl (missing_param ''GET foo/:id'' ''id'')"
    if "\<not> truthy v" for v
    using route_call_falsy_param [of ?rf example_engine "[JObj [(''id'', v)]]"] that pres [of v]
    by (simp add: names arg_at_def)
  have ok: "\<exists>call. route_call example_engine ?rf [JObj [(''id'', JStr ''0'')]] = Inr call"
    using route_call_falsy_param [of ?rf example_engine "[JObj [(''id'', JStr ''0'')]]"]
      pres [of "JStr ''0''"]
    by (simp add: names arg_at_def)
  from names falsy [of "JNum 0"] falsy [of "JStr []"] falsy [of JNull] ok
    pres [of "JNum 0"] pres [of "JStr []"] pres [of JNull] pres [of "JStr ''0''"]
  show ?thesis by (simp add: arg_at_def)
qed

section \<open>Property synchronisation: theorems\<close>

lemma pending_ok_updateOnAvaible: "pending_ok s \<Longrightarrow> pending_ok (updateOnAvaible prev s)"
  by (simp add: pending_ok_def updateOnAvaible_def)

lemma pending_ok_updateView: "pending_ok s \<Longrightarrow> pending_ok (updateView b prev s)"
  by (auto simp: updateView_def updateOnAvaible_def record_call_def pending_ok_def)

lemma pending_ok_on_change: "pending_ok s \<Longrightarrow> pending_ok (on_change b s)"
proof -
  assume s: "pending_ok s"
  have rc: "pending_ok (record_call c t)" if "pending_ok t" for c t
    using that by (simp add: record_call_def pending_ok_def)
  have pv: "pending_ok (t\<lparr>previousValue := v\<rparr>)" if "pending_ok t" for v t
    using that by (simp add: pending_ok_def)
  show ?thesis
    using s by (auto simp: on_change_def Let_def intro!: pv pending_ok_updateView rc)
qed

lemma pending_ok_fire_available: "pending_ok s \<Longrightarrow> pending_ok (fire_available b s)"
proof (cases "hasListened s")
  case True
  assume "pending_ok s"
  with True obtain p where p: "listeners s = [p]"
    by (cases "listeners s") (auto simp: pending_ok_def)
  have "pending_ok (s\<lparr>listeners := [], hasListened := False\<rparr>)" by (simp add: pending_ok_def)
  then show ?thesis
    using p pending_ok_updateView [of "s\<lparr>listeners := [], hasListened := False\<rparr>" b p]
    by (simp add: fire_available_def deferred_push_def)
next
  case False
  assume "pending_ok s"
  with False show ?thesis by (simp add: fire_available_def pending_ok_def)
qed

lemma pending_ok_step: "pending_ok s \<Longrightarrow> pending_ok (step b s ev)"
proof (cases ev)
  case (Change v)
  assume "pending_ok s"
  then have "pending_ok (s\<lparr>prop_value := v\<rparr>)" by (simp add: pending_ok_def)
  with Change show ?thesis by (simp add: pending_ok_on_change)
next
  case (Available a)
  assume "pending_ok s"
  then have "pending_ok (s\<lparr>view_available := a\<rparr>)" by (simp add: pending_ok_def)
  with Available show ?thesis by (simp add: pending_ok_fire_available)
qed

lemma pending_ok_run: "pending_ok s \<Longrightarrow> pending_ok (run b s evs)"
  unfolding run_def by (induction evs arbitrary: s) (auto simp: pending_ok_step)

lemma pending_ok_sync: "pending_ok s \<Longrightarrow> pending_ok (sync b s)"
proof -
  assume s: "pending_ok s"
  have pv: "pending_ok (t\<lparr>previousValue := v\<rparr>)" if "pending_ok t" for v t
    using that by (simp add: pending_ok_def)
  show ?thesis
    using s by (auto simp: sync_def Let_def intro!: pv pending_ok_on_change pending_ok_updateView)
qed

lemma pending_ok_fresh: "pending_ok (fresh v a)"
  by (simp add: pending_ok_def fresh_def)

text \<open>While the view is unavailable a registered push stays the registered one.\<close>

lemma change_keeps_pending:
  assumes "listeners s = [p]" and "hasListened s" and "\<not> view_available s"
  shows "listeners (step b s (Change v)) = [p] \<and> hasListened (step b s (Change v)) \<and>
         \<not> view_available (step b s (Change v)) \<and> prop_value (step b s (Change v)) = v"
  using assms
  by (simp add: on_change_def Let_def updateView_def updateOnAvaible_def record_call_def)

lemma changes_keep_pending:
  assumes "listeners s = [p]" and "hasListened s" and "\<not> view_available s"
  shows "listeners (run b s (map Change vs)) = [p] \<and> hasListened (run b s (map Change vs)) \<and>
         \<not> view_available (run b s (map Change vs)) \<and>
         prop_value (run b s (map Change vs)) = last (prop_value s # vs)"
  using assms
proof (induction vs arbitrary: s)
  case Nil
  then show ?case by (simp add: run_def)
next
  case (Cons v vs)
  from change_keeps_pending [OF Cons.prems, of b v]
  have "listeners (run b (step b s (Change v)) (map Change vs)) = [p] \<and>
        hasListened (run b (step b s (Change v)) (map Change vs)) \<and>
        \<not> view_available (run b (step b s (Change v)) (map Change vs)) \<and>
        prop_value (run b (step b s (Change v)) (map Change vs)) = last (prop_value (step b s (Change v)) # vs)"
    by (intro Cons.IH) simp_all
  with change_keeps_pending [OF Cons.prems, of b v] show ?case
    by (simp add: run_def)
qed

lemma available_fires_pending:
  assumes "listeners s = [p]" and "has_member b (fnView b)"
  shows "step b s (Available True) =
           s\<lparr>view_available := True, hasListened := False, listeners := [],
             calls := calls s @ [Method (to_string (fnView b)) [prop_value s, p]]\<rparr>"
  using assms
  by (simp add: fire_available_def deferred_push_def updateView_def record_call_def)

lemma run_snoc: "run b s (evs @ [ev]) = step b (run b s evs) ev"
  by (simp add: run_def)

lemma title_binding_simps:
  "property title_binding = ''title''" "propertyName title_binding = ''title''"
  "fnController title_binding = JStr ''titleDidChange''"
  "fnView title_binding = JStr ''refreshTitlePropertyOnView''"
  "fn_given title_binding = False" "filterFn title_binding = (\<lambda>s. True)"
  "that title_binding = title_controller"
  "options_trigger title_binding = JBool False" "options_triggerView title_binding = JBool True"
  "target_trigger title_binding = True"
  by (simp_all add: title_binding_def sync_binding_def Let_def dflt_def split_dot_def
      camelCaseFromNamespace_def upper_char_def)

lemma title_members:
  "has_member title_binding (JStr ''titleDidChange'')"
  "has_member title_binding (JStr ''refreshTitlePropertyOnView'')"
  by (simp_all add: has_member_def title_binding_simps title_controller_def)

lemma title_sync:
  "sync title_binding (fresh v False) =
     \<lparr>prop_value = v, view_available = False, hasListened = True, previousValue = v,
      listeners = [JUndefined], calls = []\<rparr>"
  by (simp add: sync_def Let_def title_binding_simps title_members updateView_def
      updateOnAvaible_def fresh_def)

lemma title_change:
  "\<not> view_available s \<Longrightarrow> hasListened s \<Longrightarrow>
   on_change title_binding s =
     s\<lparr>previousValue := prop_value s,
       calls := calls s @ [Method ''titleDidChange'' [prop_value s, previousValue s]]\<rparr>"
  by (simp add: on_change_def Let_def title_binding_simps title_members updateView_def
      updateOnAvaible_def record_call_def)

text \<open>
  C1 (as amended).  A binding never has more than one deferred view push pending.
  \<open>updateOnAvaible\<close> registers its one-shot listener only when none is registered, and does
  nothing otherwise: of the deferrals that occur before the view becomes available the first
  one stays registered and the later ones are dropped.  When the view then becomes
  available, that one listener fires once and is gone, and the view handler is called with
  the value the property has at that moment and the previous value captured when the first
  deferral was registered.
\<close>

theorem deferred_push_first_wins:
  "length (listeners (run b (sync b (fresh v0 a0)) evs)) \<le> 1 \<and>
   (\<not> hasListened s \<longrightarrow> listeners (updateOnAvaible prev s) = listeners s @ [prev]) \<and>
   (hasListened s \<longrightarrow> updateOnAvaible prev s = s) \<and>
   (listeners s = [p] \<and> hasListened s \<and> \<not> view_available s \<and> has_member b (fnView b) \<longrightarrow>
      listeners (run b s (map Change vs)) = [p] \<and>
      run b s (map Change vs @ [Available True]) =
        (run b s (map Change vs))
          \<lparr>view_available := True, hasListened := False, listeners := [],
           calls := calls (run b s (map Change vs)) @
                    [Method (to_string (fnView b)) [last (prop_value s # vs), p]]\<rparr>)"
proof (intro conjI impI)
  have "pending_ok (run b (sync b (fresh v0 a0)) evs)"
    by (intro pending_ok_run pending_ok_sync pending_ok_fresh)
  then show "length (listeners (run b (sync b (fresh v0 a0)) evs)) \<le> 1"
    by (simp add: pending_ok_def split: if_splits)
next
  assume "\<not> hasListened s"
  then show "listeners (updateOnAvaible prev s) = listeners s @ [prev]"
    by (simp add: updateOnAvaible_def)
next
  assume "hasListened s"
  then show "updateOnAvaible prev s = s" by (simp add: updateOnAvaible_def)
next
  assume h: "listeners s = [p] \<and> hasListened s \<and> \<not> view_available s \<and> has_member b (fnView b)"
  then have k: "listeners (run b s (map Change vs)) = [p] \<and> hasListened (run b s (map Change vs)) \<and>
         \<not> view_available (run b s (map Change vs)) \<and>
         prop_value (run b s (map Change vs)) = last (prop_value s # vs)"
    by (intro changes_keep_pending) simp_all
  then show "listeners (run b s (map Change vs)) = [p]" by simp
  from h k available_fires_pending [of "run b s (map Change vs)" p b]
  show "run b s (map Change vs @ [Available True]) =
        (run b s (map Change vs))
          \<lparr>view_available := True, hasListened := False, listeners := [],
           calls := calls (run b s (map Change vs)) @
                    [Method (to_string (fnView b)) [last (prop_value s # vs), p]]\<rparr>"
    by (simp only: run_snoc)
qed

theorem deferred_push_first_wins_witness:
  "\<not> hasListened (fresh (JStr ''X'') False) \<and>
   listeners (updateOnAvaible (JStr ''W'') (fresh (JStr ''X'') False)) = [JStr ''W''] \<and>
   listeners (sync title_binding (fresh (JStr ''X'') False)) = [JUndefined] \<and>
   hasListened (sync title_binding (fresh (JStr ''X'') False)) \<and>
   updateOnAvaible (JStr ''W'') (sync title_binding (fresh (JStr ''X'') False)) =
     sync title_binding (fresh (JStr ''X'') False) \<and>
   \<not> view_available (sync title_binding (fresh (JStr ''X'') False)) \<and>
   has_member title_binding (fnView title_binding) \<and>
   listeners (run title_binding (sync title_binding (fresh (JStr ''X'') False))
                [Change (JStr ''A''), Change (JStr ''B'')]) = [JUndefined] \<and>
   listeners (run title_binding (sync title_binding (fresh (JStr ''X'') False))
                [Change (JStr ''A''), Change (JStr ''B''), Available True]) = [] \<and>
   calls (run title_binding (sync title_binding (fresh (JStr ''X'') False))
                [Change (JStr ''A''), Change (JStr ''B''), Available True]) =
     calls (run title_binding (sync title_binding (fresh (JStr ''X'') False))
                [Change (JStr ''A''), Change (JStr ''B'')]) @
     [Method ''refreshTitlePropertyOnView'' [JStr ''B'', JUndefined]]"
proof -
  let ?s = "sync title_binding (fresh (JStr ''X'') False)"
  have s: "listeners ?s = [JUndefined]" "hasListened ?s" "\<not> view_available ?s"
    "has_member title_binding (fnView title_binding)" "prop_value ?s = JStr ''X''"
    by (simp_all add: title_sync title_binding_simps title_members)
  from deferred_push_first_wins [of title_binding _ _ "[]" ?s _ JUndefined "[JStr ''A'', JStr ''B'']"] s
  have r: "listeners (run title_binding ?s [Change (JStr ''A''), Change (JStr ''B'')]) = [JUndefined]"
    and f: "run title_binding ?s [Change (JStr ''A''), Change (JStr ''B''), Available True] =
        (run title_binding ?s [Change (JStr ''A''), Change (JStr ''B'')])
          \<lparr>view_available := True, hasListened := False, listeners := [],
           calls := calls (run title_binding ?s [Change (JStr ''A''), Change (JStr ''B'')]) @
                    [Method ''refreshTitlePropertyOnView'' [JStr ''B'', JUndefined]]\<rparr>"
    by (simp_all add: title_binding_simps)
  have reg: "listeners (updateOnAvaible (JStr ''W'') (fresh (JStr ''X'') False)) = [JStr ''W'']"
    and nl: "\<not> hasListened (fresh (JStr ''X'') False)"
    using deferred_push_first_wins [of title_binding _ _ "[]" "fresh (JStr ''X'') False" "JStr ''W''"]
    by (simp_all add: fresh_def)
  have drop: "updateOnAvaible (JStr ''W'') ?s = ?s"
    using deferred_push_first_wins [of title_binding _ _ "[]" ?s "JStr ''W''"] s(2) by blast
  from s r reg nl drop show ?thesis unfolding f by simp
qed

text \<open>
  The claim as stated lets the most recent deferral win.  After \<open>sync('title')\<close> on a
  property holding \<open>X\<close> the changes to \<open>A\<close> and to \<open>B\<close> each ask for a deferred push, the last
  with the previous value \<open>A\<close>.  What fires on availability is the push deferred first, at
  bind time, with the previous value \<open>undefined\<close>; no push with the previous value \<open>A\<close> is made.
\<close>

theorem deferred_push_last_counterexample:
  "calls (run title_binding (sync title_binding (fresh (JStr ''X'') False))
            [Change (JStr ''A''), Change (JStr ''B''), Available True]) =
     [Method ''titleDidChange'' [JStr ''A'', JStr ''X''],
      Method ''titleDidChange'' [JStr ''B'', JStr ''A''],
      Method ''refreshTitlePropertyOnView'' [JStr ''B'', JUndefined]] \<and>
   Method ''refreshTitlePropertyOnView'' [JStr ''B'', JStr ''A''] \<notin>
     set (calls (run title_binding (sync title_binding (fresh (JStr ''X'') False))
            [Change (JStr ''A''), Change (JStr ''B''), Available True]))"
  by (simp add: run_def title_sync title_change fire_available_def deferred_push_def updateView_def
      record_call_def title_binding_simps title_members)

text \<open>
  C5.  A controller calls \<open>sync('title')\<close> while its view is unavailable and \<open>title\<close> is
  unset.  The handler names are the defaults, \<open>titleDidChange\<close> and
  \<open>refreshTitlePropertyOnView\<close>, and nothing is called at bind time.  When \<open>title\<close> changes
  to \<open>Hello\<close>, \<open>titleDidChange(Hello, undefined)\<close> is called at once and the view handler is
  not.  When the view then becomes available, \<open>refreshTitlePropertyOnView(Hello, undefined)\<close>
  is called.
\<close>

theorem sync_title_scenario:
  "fnController title_binding = JStr ''titleDidChange'' \<and>
   fnView title_binding = JStr ''refreshTitlePropertyOnView'' \<and>
   calls (sync title_binding (fresh JUndefined False)) = [] \<and>
   calls (run title_binding (sync title_binding (fresh JUndefined False)) [Change (JStr ''Hello'')]) =
     [Method ''titleDidChange'' [JStr ''Hello'', JUndefined]] \<and>
   calls (run title_binding (sync title_binding (fresh JUndefined False))
            [Change (JStr ''Hello''), Available True]) =
     [Method ''titleDidChange'' [JStr ''Hello'', JUndefined],
      Method ''refreshTitlePropertyOnView'' [JStr ''Hello'', JUndefined]]"
  by (simp add: run_def title_sync title_change fire_available_def deferred_push_def updateView_def
      record_call_def title_binding_simps title_members)

end
